theory Spec2Isabelle
  imports Complex_Main
begin

section \<open>Cosmic Dodge (src/html/game.js): data model\<close>

text \<open>
  JavaScript numbers that hold coordinates, sizes, speeds and opacities are modelled as
  \<^typ>\<open>real\<close>, with exact arithmetic everywhere but in \<open>spawnAsteroid\<close>, where each
  operation is rounded to a double; the two tick counters \<open>score\<close> and \<open>frameCount\<close>
  start at 0 and are only ever incremented, so they are \<^typ>\<open>nat\<close>, on which the
  remainder operator of the source coincides with \<open>mod\<close>. \<open>Math.floor\<close> is the floor
  of a real, \<open>Math.hypot\<close> the square root of the sum of the squares, and each call of
  \<open>Math.random\<close> is an input. Drawing on the canvas and the toggling of CSS classes
  change none of the variables below and are left out.
\<close>

text \<open>A trail particle, the object literal pushed in \<open>update\<close> (line 108).\<close>

record particle =
  p_x :: real
  p_y :: real
  p_radius :: real
  p_alpha :: real

text \<open>An asteroid, the object literal pushed in \<open>spawnAsteroid\<close> (lines 76-84). The colour
  is an array read, which yields \<open>undefined\<close> (here \<open>None\<close>) out of range.\<close>

record asteroid =
  a_x :: real
  a_y :: real
  a_size :: real
  a_speed :: real
  a_color :: "string option"
  a_rotation :: real
  a_rotSpeed :: real

text \<open>The closure variables of \<open>GameSystem\<close> (lines 22-46) together with the two text
  sinks \<open>scoreEl\<close> and \<open>finalScoreEl\<close>; the fields \<open>player_x\<close>, \<open>player_y\<close> and
  \<open>player_trail\<close> are \<open>player.x\<close>, \<open>player.y\<close> and \<open>player.trail\<close>.\<close>

record game =
  score :: nat
  gameActive :: bool
  frameCount :: nat
  width :: real
  height :: real
  player_x :: real
  player_y :: real
  player_trail :: "particle list"
  asteroids :: "asteroid list"
  mouseX :: real
  mouseY :: real
  scoreEl :: int
  finalScoreEl :: int

text \<open>\<open>player.size\<close> (line 35) is written once and never assigned again.\<close>

definition player_size :: real where
  "player_size = 20"

definition asteroidColors :: "string list" where
  "asteroidColors = [''#F080F0'', ''#FFD700'', ''#aaaaaa'', ''#ff5555'']"

text \<open>The state built by lines 22-46, before any event; the two text sinks show 0.\<close>

definition initial_game :: game where
  "initial_game =
     \<lparr>score = 0, gameActive = False, frameCount = 0, width = 800, height = 600,
      player_x = 800 / 2, player_y = 600 - 100, player_trail = [], asteroids = [],
      mouseX = 800 / 2, mouseY = 600 - 100, scoreEl = 0, finalScoreEl = 0\<rparr>"

text \<open>The viewport read by \<open>resizeGame\<close>: \<open>window.innerWidth\<close> and
  \<open>window.innerHeight\<close>, whole numbers of pixels.\<close>

record window =
  innerWidth :: nat
  innerHeight :: nat

text \<open>The six successive results of \<open>Math.random()\<close> in one call of \<open>spawnAsteroid\<close>,
  in call order. Each lies in the half-open unit interval.\<close>

record draws =
  r_size :: real
  r_x :: real
  r_speed :: real
  r_color :: real
  r_rotation :: real
  r_rotSpeed :: real

definition unit_draw :: "real \<Rightarrow> bool" where
  "unit_draw r = (0 \<le> r \<and> r < 1)"

definition unit_draws :: "draws \<Rightarrow> bool" where
  "unit_draws rnd =
     (unit_draw (r_size rnd) \<and> unit_draw (r_x rnd) \<and> unit_draw (r_speed rnd) \<and>
      unit_draw (r_color rnd) \<and> unit_draw (r_rotation rnd) \<and> unit_draw (r_rotSpeed rnd))"

section \<open>Double arithmetic in the spawner\<close>

text \<open>
  The bounds on a spawned asteroid sit on the edge of what rounding can reach,
  so \<open>spawnAsteroid\<close> is modelled with the rounding of every operation: \<open>fl\<close> is the
  IEEE 754 binary64 rounding of a real, to the nearest representable number with ties
  to the even significand. \<open>expo x\<close> is the exponent of the unit in the last place of
  the binade of \<open>x\<close>, which stops falling at the subnormal numbers. Overflow is not
  modelled: every value below is far smaller than the largest double.
\<close>

definition round_even :: "real \<Rightarrow> int" where
  "round_even y =
     (let f = \<lfloor>y\<rfloor>; d = y - of_int f
      in if d < 1 / 2 then f else if 1 / 2 < d then f + 1 else if even f then f else f + 1)"

definition expo :: "real \<Rightarrow> int" where
  "expo x = max \<lfloor>log 2 \<bar>x\<bar>\<rfloor> (- 1022) - 52"

definition fl :: "real \<Rightarrow> real" where
  "fl x =
     (if x = 0 then 0
      else let u = 2 powr of_int (expo x)
           in of_int (round_even (x / u)) * u)"

text \<open>A result of \<open>Math.random\<close> is itself a double of the half-open unit interval.\<close>

definition double_draw :: "real \<Rightarrow> bool" where
  "double_draw r = (0 \<le> r \<and> r < 1 \<and> fl r = r)"

definition double_draws :: "draws \<Rightarrow> bool" where
  "double_draws rnd =
     (double_draw (r_size rnd) \<and> double_draw (r_x rnd) \<and> double_draw (r_speed rnd) \<and>
      double_draw (r_color rnd) \<and> double_draw (r_rotation rnd) \<and>
      double_draw (r_rotSpeed rnd))"

section \<open>Helper functions\<close>

text \<open>\<open>resizeGame\<close> (lines 50-66).\<close>

definition resizeGame :: "window \<Rightarrow> game \<Rightarrow> game" where
  "resizeGame w g =
     (let maxWidth = real (innerWidth w) * 0.95;
          maxHeight = real (innerHeight w) * 0.8;
          g1 = g\<lparr>width := min 800 maxWidth, height := min 600 maxHeight\<rparr>
      in if \<not> gameActive g1
         then g1\<lparr>player_x := width g1 / 2, player_y := height g1 - 100\<rparr>
         else g1)"

text \<open>\<open>spawnAsteroid\<close> (lines 70-85), every product, sum and difference rounded as
  the source computes it; \<open>0.005\<close>, \<open>0.5\<close>, \<open>0.1\<close> and \<open>Math.PI\<close> are the doubles
  nearest to those numbers, and negating a double is exact.\<close>

definition spawnAsteroid :: "draws \<Rightarrow> game \<Rightarrow> game" where
  "spawnAsteroid rnd g =
     (let sz = fl (fl (r_size rnd * 25) + 10);
          x = fl (r_x rnd * fl (width g - sz));
          speed = fl (fl (fl (r_speed rnd * 3) + 2) + fl (real (score g) * fl 0.005));
          idx = \<lfloor>fl (r_color rnd * real (length asteroidColors))\<rfloor>
      in g\<lparr>asteroids := asteroids g @
           [\<lparr>a_x = x, a_y = - sz, a_size = sz, a_speed = speed,
             a_color = (if 0 \<le> idx \<and> idx < int (length asteroidColors)
                        then Some (asteroidColors ! nat idx) else None),
             a_rotation = fl (r_rotation rnd * fl pi),
             a_rotSpeed = fl (fl (r_rotSpeed rnd - fl 0.5) * fl 0.1)\<rparr>]\<rparr>)"

text \<open>\<open>endGame\<close> (lines 236-242); the class toggling of the overlay is outside the model.\<close>

definition endGame :: "game \<Rightarrow> game" where
  "endGame g = g\<lparr>gameActive := False, finalScoreEl := \<lfloor>real (score g) / 10\<rfloor>\<rparr>"

section \<open>The simulation step \<open>update\<close> (lines 87-152)\<close>

text \<open>Lines 95-98: move the player towards the pointer.\<close>

definition movePlayer :: "game \<Rightarrow> game" where
  "movePlayer g =
     (let dx = mouseX g - player_x g;
          dy = mouseY g - player_y g
      in g\<lparr>player_x := player_x g + dx * 0.15, player_y := player_y g + dy * 0.15\<rparr>)"

text \<open>Lines 101-104: the four boundary checks, in the order of the source.\<close>

definition boundPlayer :: "game \<Rightarrow> game" where
  "boundPlayer g =
     (let g1 = (if player_x g < player_size then g\<lparr>player_x := player_size\<rparr> else g);
          g2 = (if player_x g1 > width g1 - player_size
                then g1\<lparr>player_x := width g1 - player_size\<rparr> else g1);
          g3 = (if player_y g2 < player_size then g2\<lparr>player_y := player_size\<rparr> else g2);
          g4 = (if player_y g3 > height g3 - player_size
                then g3\<lparr>player_y := height g3 - player_size\<rparr> else g3)
      in g4)"

text \<open>Lines 107-109: the engine exhaust.\<close>

definition pushTrail :: "game \<Rightarrow> game" where
  "pushTrail g =
     (if frameCount g mod 3 = 0
      then g\<lparr>player_trail := player_trail g @
             [\<lparr>p_x = player_x g, p_y = player_y g + 15, p_radius = player_size / 2,
               p_alpha = 1\<rparr>]\<rparr>
      else g)"

text \<open>Lines 112-117: the loop over the trail, from the last index down to 0. The first
  argument is the number of indices still to visit, so \<open>Suc i\<close> visits index \<open>i\<close>;
  \<open>splice(i, 1)\<close> removes that one element.\<close>

fun trail_loop :: "nat \<Rightarrow> particle list \<Rightarrow> particle list" where
  "trail_loop 0 ps = ps"
| "trail_loop (Suc i) ps =
     (let p = ps ! i;
          p' = p\<lparr>p_y := p_y p + 2, p_alpha := p_alpha p - 0.05\<rparr>
      in if p_alpha p' \<le> 0
         then trail_loop i (take i ps @ drop (Suc i) ps)
         else trail_loop i (ps[i := p']))"

definition updateTrail :: "game \<Rightarrow> game" where
  "updateTrail g =
     g\<lparr>player_trail := trail_loop (length (player_trail g)) (player_trail g)\<rparr>"

text \<open>Lines 120-123: the spawn rate, three successive overwrites of the default.\<close>

definition spawnRate :: "nat \<Rightarrow> nat" where
  "spawnRate sc =
     (let r0 = 45;
          r1 = (if sc > 500 then 35 else r0);
          r2 = (if sc > 1000 then 25 else r1);
          r3 = (if sc > 2000 then 15 else r2)
      in r3)"

text \<open>Lines 90-127: everything \<open>update\<close> does before the loop over the asteroids.\<close>

definition update_pre :: "draws \<Rightarrow> game \<Rightarrow> game" where
  "update_pre rnd g =
     (let g1 = g\<lparr>score := score g + 1\<rparr>;
          g2 = g1\<lparr>scoreEl := \<lfloor>real (score g1) / 10\<rfloor>\<rparr>;
          g3 = boundPlayer (movePlayer g2);
          g4 = updateTrail (pushTrail g3)
      in if frameCount g4 mod spawnRate (score g4) = 0 then spawnAsteroid rnd g4 else g4)"

text \<open>Lines 132-133, 136 and 142-145: what the loop does to, and asks of, one asteroid.\<close>

definition advance :: "asteroid \<Rightarrow> asteroid" where
  "advance ast =
     ast\<lparr>a_y := a_y ast + a_speed ast, a_rotation := a_rotation ast + a_rotSpeed ast\<rparr>"

definition offScreen :: "real \<Rightarrow> asteroid \<Rightarrow> bool" where
  "offScreen h ast = (a_y ast > h + a_size ast)"

definition hypot :: "real \<Rightarrow> real \<Rightarrow> real" where
  "hypot a b = sqrt (a\<^sup>2 + b\<^sup>2)"

definition crashed :: "real \<Rightarrow> real \<Rightarrow> asteroid \<Rightarrow> bool" where
  "crashed px py ast =
     (let dist = hypot (px - a_x ast) (py - a_y ast)
      in dist < player_size + a_size ast - 5)"

text \<open>The loop of lines 130-149 either runs to its end or leaves \<open>update\<close> through the
  \<open>return\<close> of line 147.\<close>

datatype flow = Completed game | Returned game

fun asteroid_loop :: "nat \<Rightarrow> game \<Rightarrow> flow" where
  "asteroid_loop 0 g = Completed g"
| "asteroid_loop (Suc i) g =
     (let ast = advance (asteroids g ! i);
          g1 = g\<lparr>asteroids := (asteroids g)[i := ast]\<rparr>
      in if offScreen (height g1) ast
         then asteroid_loop i
                (g1\<lparr>asteroids := take i (asteroids g1) @ drop (Suc i) (asteroids g1)\<rparr>)
         else if crashed (player_x g1) (player_y g1) ast
         then Returned (endGame g1)
         else asteroid_loop i g1)"

definition update :: "draws \<Rightarrow> game \<Rightarrow> game" where
  "update rnd g =
     (if \<not> gameActive g then g
      else
        let g0 = update_pre rnd g
        in case asteroid_loop (length (asteroids g0)) g0 of
             Returned g' \<Rightarrow> g'
           | Completed g' \<Rightarrow> g'\<lparr>frameCount := frameCount g' + 1\<rparr>)"

section \<open>The session controller\<close>

text \<open>\<open>gameLoop\<close> (lines 208-213): one animation frame. \<open>draw\<close> only reads the state.\<close>

definition gameLoop :: "draws \<Rightarrow> game \<Rightarrow> game" where
  "gameLoop rnd g = (if \<not> gameActive g then g else update rnd g)"

text \<open>\<open>startGame\<close>: the reset of lines 216-232, then the first frame, which line 233 runs
  before \<open>startGame\<close> returns.\<close>

definition startGame_reset :: "window \<Rightarrow> game \<Rightarrow> game" where
  "startGame_reset w g =
     (let g1 = g\<lparr>score := 0, frameCount := 0, asteroids := [], player_trail := []\<rparr>;
          g2 = resizeGame w g1;
          g3 = g2\<lparr>player_x := width g2 / 2, player_y := height g2 - 100,
                  mouseX := width g2 / 2, mouseY := height g2 - 100\<rparr>
      in g3\<lparr>scoreEl := 0, gameActive := True\<rparr>)"

definition startGame :: "window \<Rightarrow> draws \<Rightarrow> game \<Rightarrow> game" where
  "startGame w rnd g = gameLoop rnd (startGame_reset w g)"

text \<open>What can happen between a start and the next start: an animation frame, a pointer
  or touch move (lines 272-284, with the surface-local coordinates it stores), a resize
  of the window (line 289) and the close button (line 260).\<close>

datatype event = Frame draws | MouseMove real real | Resize window | Close

fun handle :: "event \<Rightarrow> game \<Rightarrow> game" where
  "handle (Frame rnd) g = gameLoop rnd g"
| "handle (MouseMove x y) g = g\<lparr>mouseX := x, mouseY := y\<rparr>"
| "handle (Resize w) g = resizeGame w g"
| "handle Close g = g\<lparr>gameActive := False\<rparr>"

fun run :: "event list \<Rightarrow> game \<Rightarrow> game" where
  "run [] g = g"
| "run (e # es) g = run es (handle e g)"

section \<open>List-level descriptions of the two loops\<close>

text \<open>One ageing step of a particle (lines 114-115) and the test that keeps it
  (the negation of line 116).\<close>

definition age :: "particle \<Rightarrow> particle" where
  "age p = p\<lparr>p_y := p_y p + 2, p_alpha := p_alpha p - 0.05\<rparr>"

definition alive :: "particle \<Rightarrow> bool" where
  "alive p = (0 < p_alpha p)"

text \<open>What one pass of the loop of lines 112-117 does to a trail (lemma
  \<open>trail_loop_filter\<close> below): every particle is aged once and those no longer alive are
  dropped, the others keeping their order.\<close>

definition fade :: "particle list \<Rightarrow> particle list" where
  "fade ps = filter alive (map age ps)"

text \<open>A scan of a sequence of asteroids in the order of the sequence: each one is
  advanced, dropped when it has left the surface, and the scan stops at the first one
  that hits the player, leaving the rest of the sequence as it was. The result is the
  sequence after the scan and whether a hit stopped it.\<close>

fun scan :: "real \<Rightarrow> real \<Rightarrow> real \<Rightarrow> asteroid list \<Rightarrow> asteroid list \<times> bool" where
  "scan h px py [] = ([], False)"
| "scan h px py (a # as) =
     (let a' = advance a
      in if offScreen h a' then scan h px py as
         else if crashed px py a' then (a' # as, True)
         else (case scan h px py as of (r, hit) \<Rightarrow> (a' # r, hit)))"

text \<open>The scan taken newest asteroid first, that is from the end of the array.\<close>

definition check_newest_first :: "game \<Rightarrow> flow" where
  "check_newest_first g =
     (case scan (height g) (player_x g) (player_y g) (rev (asteroids g)) of
        (r, hit) \<Rightarrow>
          (let g' = g\<lparr>asteroids := rev r\<rparr>
           in if hit then Returned (endGame g') else Completed g'))"

text \<open>The scan as the specification words it (section 4.2, tie-break policy): in
  insertion order, oldest asteroid first.\<close>

definition check_insertion_order :: "game \<Rightarrow> flow" where
  "check_insertion_order g =
     (case scan (height g) (player_x g) (player_y g) (asteroids g) of
        (r, hit) \<Rightarrow>
          (let g' = g\<lparr>asteroids := r\<rparr>
           in if hit then Returned (endGame g') else Completed g'))"

section \<open>Concrete states and draws\<close>

text \<open>A running session on the full 800 by 600 surface with no asteroid yet, 19 ticks
  into its score, and one set of draws.\<close>

definition g_run :: game where
  "g_run = initial_game\<lparr>gameActive := True, score := 19\<rparr>"

definition rnd0 :: draws where
  "rnd0 = \<lparr>r_size = 0.4, r_x = 0.5, r_speed = 0.5, r_color = 0.3, r_rotation = 0.1,
            r_rotSpeed = 0.7\<rparr>"

text \<open>An asteroid of radius 20 falling 5 units a tick, and three running sessions on
  the full surface, player and pointer at (400, 500), at a tick that neither spawns nor
  leaves a trail particle: one asteroid about to land on the player, one about to stop
  36 units above it, and two asteroids both about to overlap the player.\<close>

definition rock :: "real \<Rightarrow> real \<Rightarrow> asteroid" where
  "rock x y = \<lparr>a_x = x, a_y = y, a_size = 20, a_speed = 5, a_color = Some ''#FFD700'',
               a_rotation = 0, a_rotSpeed = 0\<rparr>"

definition g_hit :: game where
  "g_hit = initial_game\<lparr>gameActive := True, frameCount := 1, asteroids := [rock 400 495]\<rparr>"

definition g_miss :: game where
  "g_miss = initial_game\<lparr>gameActive := True, frameCount := 1, asteroids := [rock 400 459]\<rparr>"

definition g_two :: game where
  "g_two = initial_game\<lparr>gameActive := True, frameCount := 1,
             asteroids := [rock 400 495, rock 410 490]\<rparr>"

text \<open>The same running session after the window has shrunk to 30 by 800 pixels, which
  \<open>resizeGame\<close> turns into a surface 28.5 wide.\<close>

definition g_narrow :: game where
  "g_narrow = resizeGame \<lparr>innerWidth = 30, innerHeight = 800\<rparr> g_run"

text \<open>Four sets of draws that are doubles: all in the middle of the interval; a first
  draw that gives an asteroid of radius 31.875; the size and speed draws at the largest
  double below 1; and the speed draw at 0. And the state in which the first tick of a
  session calls the spawner, the score already incremented to 1.\<close>

definition rnd_mid :: draws where
  "rnd_mid = \<lparr>r_size = 0.5, r_x = 0.5, r_speed = 0.5, r_color = 0.25, r_rotation = 0.125,
               r_rotSpeed = 0.75\<rparr>"

definition rnd_big :: draws where
  "rnd_big = rnd_mid\<lparr>r_size := 0.875\<rparr>"

definition rnd_top :: draws where
  "rnd_top = rnd_mid\<lparr>r_size := 1 - 1 / 2 ^ 53, r_speed := 1 - 1 / 2 ^ 53\<rparr>"

definition rnd_low :: draws where
  "rnd_low = rnd_mid\<lparr>r_speed := 0\<rparr>"

definition g_first :: game where
  "g_first = initial_game\<lparr>gameActive := True, score := 1\<rparr>"

text \<open>A particle as line 108 makes it, for a player at (400, 500).\<close>

definition spark :: particle where
  "spark = \<lparr>p_x = 400, p_y = 515, p_radius = 10, p_alpha = 1\<rparr>"

section \<open>Initialisation of \<open>GameSystem\<close> (lines 5-19 and 244-289)\<close>

text \<open>Which of the ten elements \<open>document.getElementById\<close> finds (lines 7-17); an
  element that is not found is \<open>null\<close>.\<close>

record dom =
  has_modal :: bool
  has_startBtn :: bool
  has_closeBtn :: bool
  has_canvas :: bool
  has_scoreEl :: bool
  has_finalScoreEl :: bool
  has_startScreen :: bool
  has_gameOverScreen :: bool
  has_playBtn :: bool
  has_restartBtn :: bool

text \<open>The listeners that lines 247-289 attach, and the three ways the body of
  \<open>GameSystem\<close> can end: the early \<open>return\<close> of line 19, before any state exists; a
  \<open>TypeError\<close> from \<open>addEventListener\<close> on \<open>null\<close>, which leaves behind the state and
  the listeners attached so far; or the end of the body.\<close>

datatype listener =
  StartBtn_click | CloseBtn_click | Canvas_mousemove | Canvas_touchmove |
  PlayBtn_click | RestartBtn_click | Window_resize

datatype activation =
  Declined | Faulted "listener list" game | Activated "listener list" game

text \<open>The guard of line 19 tests \<open>canvas\<close> first and \<open>modal\<close> second; lines 247 and 258
  guard their buttons, lines 286 and 287 do not.\<close>

definition GameSystem :: "dom \<Rightarrow> activation" where
  "GameSystem d =
     (if \<not> has_canvas d then Declined
      else if \<not> has_modal d then Declined
      else
        let ls1 = (if has_startBtn d then [StartBtn_click] else []);
            ls2 = ls1 @ (if has_closeBtn d then [CloseBtn_click] else []);
            ls3 = ls2 @ [Canvas_mousemove, Canvas_touchmove]
        in if \<not> has_playBtn d then Faulted ls3 initial_game
           else if \<not> has_restartBtn d then Faulted (ls3 @ [PlayBtn_click]) initial_game
           else Activated (ls3 @ [PlayBtn_click, RestartBtn_click, Window_resize])
                  initial_game)"

text \<open>A page with all ten elements, the same page without the play button, and the
  same page without the score display.\<close>

definition dom_full :: dom where
  "dom_full =
     \<lparr>has_modal = True, has_startBtn = True, has_closeBtn = True, has_canvas = True,
      has_scoreEl = True, has_finalScoreEl = True, has_startScreen = True,
      has_gameOverScreen = True, has_playBtn = True, has_restartBtn = True\<rparr>"

definition dom_no_play :: dom where
  "dom_no_play = dom_full\<lparr>has_playBtn := False\<rparr>"

definition dom_no_score :: dom where
  "dom_no_score = dom_full\<lparr>has_scoreEl := False\<rparr>"

section \<open>Rounding to a double\<close>

lemma round_even_int [simp]: "round_even (of_int n) = n"
  by (simp add: round_even_def)

lemma round_even_le: "y \<le> of_int n \<Longrightarrow> round_even y \<le> n"
proof -
  assume a: "y \<le> of_int n"
  show ?thesis
  proof (cases "y = of_int n")
    case True
    then show ?thesis by simp
  next
    case False
    with a have "y < of_int n" by simp
    then have "\<lfloor>y\<rfloor> < n" by (simp add: floor_less_iff)
    then show ?thesis by (simp add: round_even_def Let_def)
  qed
qed

lemma round_even_ge: "of_int n \<le> y \<Longrightarrow> n \<le> round_even y"
proof -
  assume "of_int n \<le> y"
  then have "n \<le> \<lfloor>y\<rfloor>" by (simp add: le_floor_iff)
  then show ?thesis by (simp add: round_even_def Let_def)
qed

lemma round_even_below_half: "y < of_int n - 1/2 \<Longrightarrow> round_even y \<le> n - 1"
proof -
  assume a: "y < of_int n - 1/2"
  then have "y < of_int n" by simp
  then have f: "\<lfloor>y\<rfloor> \<le> n - 1" by (simp add: floor_less_iff)
  show ?thesis
  proof (cases "\<lfloor>y\<rfloor> = n - 1")
    case True
    then have "y - of_int \<lfloor>y\<rfloor> < 1/2" using a by simp
    then show ?thesis using True by (simp add: round_even_def Let_def)
  next
    case False
    with f have "\<lfloor>y\<rfloor> \<le> n - 2" by simp
    then show ?thesis by (simp add: round_even_def Let_def)
  qed
qed

lemma floor_log2_eq:
  assumes "0 < x" "2 powr of_int k \<le> x" "x < 2 powr of_int (k + 1)"
  shows "\<lfloor>log 2 x\<rfloor> = k"
proof (rule floor_unique)
  show "of_int k \<le> log 2 x" using assms by (simp add: le_log_iff)
  show "log 2 x < of_int k + 1" using assms by (simp add: log_less_iff)
qed

lemma floor_log2_bounds:
  assumes "0 < x"
  shows "2 powr of_int \<lfloor>log 2 x\<rfloor> \<le> x" "x < 2 powr of_int (\<lfloor>log 2 x\<rfloor> + 1)"
proof -
  have "(of_int \<lfloor>log 2 x\<rfloor> \<le> log 2 x) = (2 powr of_int \<lfloor>log 2 x\<rfloor> \<le> x)"
    using assms by (intro le_log_iff) simp_all
  then show "2 powr of_int \<lfloor>log 2 x\<rfloor> \<le> x" by simp
  have "(log 2 x < of_int (\<lfloor>log 2 x\<rfloor> + 1)) = (x < 2 powr of_int (\<lfloor>log 2 x\<rfloor> + 1))"
    using assms by (intro log_less_iff) simp_all
  moreover have "log 2 x < of_int (\<lfloor>log 2 x\<rfloor> + 1)" by simp
  ultimately show "x < 2 powr of_int (\<lfloor>log 2 x\<rfloor> + 1)" by blast
qed

text \<open>The exponent: every non-zero number lies below the top of its binade, and a normal
  one at or above its bottom.\<close>

lemma expo_ge: "- 1074 \<le> expo x"
  by (simp add: expo_def)

lemma ulp_pos [simp]: "0 < (2::real) powr y"
  by simp

lemma below_top:
  assumes "x \<noteq> 0"
  shows "\<bar>x\<bar> < 2 powr of_int (expo x + 53)"
proof -
  have a: "0 < \<bar>x\<bar>" using assms by simp
  have "\<bar>x\<bar> < 2 powr of_int (\<lfloor>log 2 \<bar>x\<bar>\<rfloor> + 1)" by (rule floor_log2_bounds(2) [OF a])
  also have "\<dots> \<le> 2 powr of_int (expo x + 53)"
    by (intro powr_mono) (simp_all add: expo_def)
  finally show ?thesis .
qed

lemma above_bottom:
  assumes "x \<noteq> 0" "- 1022 \<le> \<lfloor>log 2 \<bar>x\<bar>\<rfloor>"
  shows "2 powr of_int (expo x + 52) \<le> \<bar>x\<bar>"
proof -
  have a: "0 < \<bar>x\<bar>" using assms by simp
  have "expo x + 52 = \<lfloor>log 2 \<bar>x\<bar>\<rfloor>" using assms(2) by (simp add: expo_def)
  then show ?thesis using floor_log2_bounds(1) [OF a] by simp
qed

lemma expo_mono: "0 < x \<Longrightarrow> x \<le> y \<Longrightarrow> expo x \<le> expo y"
proof -
  assume a: "0 < x" "x \<le> y"
  then have "log 2 x \<le> log 2 y" by simp
  then have "\<lfloor>log 2 x\<rfloor> \<le> \<lfloor>log 2 y\<rfloor>" by (rule floor_mono)
  then show ?thesis using a by (simp add: expo_def)
qed

text \<open>Integer multiples of a power of two.\<close>

lemma powr_int_diff: "(2::real) powr of_int a / 2 powr of_int b = 2 powr of_int (a - b)"
  by (simp add: powr_diff)

lemma powr_nat_int: "0 \<le> j \<Longrightarrow> (2::real) powr of_int j = of_int (2 ^ nat j)"
proof -
  assume "0 \<le> j"
  then have "(2::real) powr of_int j = 2 powr real (nat j)" by simp
  also have "\<dots> = 2 ^ nat j" by (simp add: powr_realpow)
  finally show ?thesis by simp
qed


lemma fl_pos_unfold: "0 < x \<Longrightarrow> fl x = of_int (round_even (x / 2 powr of_int (expo x))) * 2 powr of_int (expo x)"
  by (simp add: fl_def Let_def)

lemma multiple_div:
  assumes "e \<le> k"
  shows "of_int m * 2 powr of_int k / 2 powr of_int e = (of_int (m * 2 ^ nat (k - e)) :: real)"
proof -
  have pw: "(2::real) powr of_int (k - e) = of_int (2 ^ nat (k - e))"
    using assms by (intro powr_nat_int) simp
  have "of_int m * 2 powr of_int k / 2 powr of_int e = of_int m * ((2::real) powr of_int k / 2 powr of_int e)"
    by simp
  also have "\<dots> = of_int m * 2 powr of_int (k - e)"
    by (simp only: powr_int_diff)
  also have "\<dots> = of_int m * of_int (2 ^ nat (k - e))"
    by (simp only: pw)
  finally show ?thesis by simp
qed

lemma fl_le_multiple:
  assumes x: "0 < x" and ek: "expo x \<le> k" and le: "x \<le> of_int m * 2 powr of_int k"
  shows "fl x \<le> of_int m * 2 powr of_int k"
proof -
  let ?u = "(2::real) powr of_int (expo x)"
  let ?c = "of_int m * 2 powr of_int k :: real"
  have cu: "?c / ?u = of_int (m * 2 ^ nat (k - expo x))"
    by (rule multiple_div [OF ek])
  have "x / ?u \<le> ?c / ?u" using le by (simp add: divide_right_mono)
  then have "round_even (x / ?u) \<le> m * 2 ^ nat (k - expo x)"
    unfolding cu by (rule round_even_le)
  then have "(of_int (round_even (x / ?u)) :: real) \<le> of_int (m * 2 ^ nat (k - expo x))"
    by (simp only: of_int_le_iff)
  then have "of_int (round_even (x / ?u)) * ?u \<le> (?c / ?u) * ?u"
    unfolding cu by (intro mult_right_mono) simp_all
  then show ?thesis by (simp add: fl_pos_unfold [OF x])
qed

lemma fl_ge_multiple:
  assumes x: "0 < x" and ek: "expo x \<le> k" and le: "of_int m * 2 powr of_int k \<le> x"
  shows "of_int m * 2 powr of_int k \<le> fl x"
proof -
  let ?u = "(2::real) powr of_int (expo x)"
  let ?c = "of_int m * 2 powr of_int k :: real"
  have cu: "?c / ?u = of_int (m * 2 ^ nat (k - expo x))"
    by (rule multiple_div [OF ek])
  have "?c / ?u \<le> x / ?u" using le by (simp add: divide_right_mono)
  then have "m * 2 ^ nat (k - expo x) \<le> round_even (x / ?u)"
    unfolding cu by (rule round_even_ge)
  then have "(of_int (m * 2 ^ nat (k - expo x)) :: real) \<le> of_int (round_even (x / ?u))"
    by (simp only: of_int_le_iff)
  then have "(?c / ?u) * ?u \<le> of_int (round_even (x / ?u)) * ?u"
    unfolding cu by (intro mult_right_mono) simp_all
  then show ?thesis by (simp add: fl_pos_unfold [OF x])
qed

lemma normal_of_expo: "k + 1 \<le> expo x \<Longrightarrow> - 1074 \<le> k \<Longrightarrow> - 1022 \<le> \<lfloor>log 2 \<bar>x\<bar>\<rfloor>"
  unfolding expo_def by linarith

lemma pow53: "of_int (2 ^ 53) * (2::real) powr of_int k = 2 powr of_int (k + 53)"
  by (simp add: powr_add powr_numeral)

lemma pow52: "of_int (2 ^ 52) * (2::real) powr of_int k = 2 powr of_int (k + 52)"
  by (simp add: powr_add powr_numeral)

lemma fl_ge_bottom:
  assumes x: "0 < x" and nrm: "- 1022 \<le> \<lfloor>log 2 \<bar>x\<bar>\<rfloor>"
  shows "2 powr of_int (expo x + 52) \<le> fl x"
proof -
  have "2 powr of_int (expo x + 52) \<le> \<bar>x\<bar>" using x nrm by (intro above_bottom) simp_all
  then have "of_int (2 ^ 52) * 2 powr of_int (expo x) \<le> x"
    using x unfolding pow52 by linarith
  then have "of_int (2 ^ 52) * 2 powr of_int (expo x) \<le> fl x"
    by (intro fl_ge_multiple [OF x]) simp_all
  then show ?thesis unfolding pow52 .
qed

lemma fl_le_top:
  assumes x: "0 < x"
  shows "fl x \<le> 2 powr of_int (expo x + 53)"
proof -
  have "\<bar>x\<bar> < 2 powr of_int (expo x + 53)" using x by (intro below_top) simp
  then have "x \<le> of_int (2 ^ 53) * 2 powr of_int (expo x)"
    using x unfolding pow53 by linarith
  then have "fl x \<le> of_int (2 ^ 53) * 2 powr of_int (expo x)"
    by (intro fl_le_multiple [OF x]) simp_all
  then show ?thesis unfolding pow53 .
qed

text \<open>Rounding never crosses a positive double \<open>m * 2 powr k\<close>: what lies at or below
  it rounds to at most it, what lies at or above it to at least it.\<close>

lemma fl_le_grid:
  assumes x: "0 < x" and m: "m \<le> 2 ^ 53" and k: "- 1074 \<le> k"
    and le: "x \<le> of_int m * 2 powr of_int k"
  shows "fl x \<le> of_int m * 2 powr of_int k"
proof (cases "expo x \<le> k")
  case True
  then show ?thesis by (rule fl_le_multiple [OF x _ le])
next
  case False
  let ?c = "of_int m * 2 powr of_int k :: real"
  from False have ek: "k + 1 \<le> expo x" by simp
  have nrm: "- 1022 \<le> \<lfloor>log 2 \<bar>x\<bar>\<rfloor>" by (rule normal_of_expo [OF ek k])
  have "(of_int m :: real) \<le> of_int (2 ^ 53)"
    using m by (simp only: of_int_le_iff)
  then have "?c \<le> of_int (2 ^ 53) * 2 powr of_int k"
    by (intro mult_right_mono) simp_all
  then have A: "?c \<le> 2 powr of_int (k + 53)" unfolding pow53 .
  have B: "(2::real) powr of_int (k + 53) \<le> 2 powr of_int (expo x + 52)"
    using ek by (intro powr_mono) simp_all
  have "2 powr of_int (expo x + 52) \<le> \<bar>x\<bar>" using x nrm by (intro above_bottom) simp_all
  then have C: "2 powr of_int (expo x + 52) \<le> x" using x by simp
  from A B C le have xe: "x = of_int (2 ^ 52) * 2 powr of_int (expo x)" and xc: "x = ?c"
    unfolding pow52 by linarith+
  have "fl x \<le> of_int (2 ^ 52) * 2 powr of_int (expo x)"
    using xe by (intro fl_le_multiple [OF x]) simp_all
  then show ?thesis using xe xc by simp
qed

lemma fl_ge_grid:
  assumes x: "0 < x" and m: "m \<le> 2 ^ 53" and k: "- 1074 \<le> k"
    and le: "of_int m * 2 powr of_int k \<le> x"
  shows "of_int m * 2 powr of_int k \<le> fl x"
proof (cases "expo x \<le> k")
  case True
  then show ?thesis by (rule fl_ge_multiple [OF x _ le])
next
  case False
  let ?c = "of_int m * 2 powr of_int k :: real"
  from False have ek: "k + 1 \<le> expo x" by simp
  have nrm: "- 1022 \<le> \<lfloor>log 2 \<bar>x\<bar>\<rfloor>" by (rule normal_of_expo [OF ek k])
  have "(of_int m :: real) \<le> of_int (2 ^ 53)"
    using m by (simp only: of_int_le_iff)
  then have "?c \<le> of_int (2 ^ 53) * 2 powr of_int k"
    by (intro mult_right_mono) simp_all
  then have A: "?c \<le> 2 powr of_int (k + 53)" unfolding pow53 .
  have B: "(2::real) powr of_int (k + 53) \<le> 2 powr of_int (expo x + 52)"
    using ek by (intro powr_mono) simp_all
  have C: "2 powr of_int (expo x + 52) \<le> fl x" by (rule fl_ge_bottom [OF x nrm])
  from A B C show ?thesis by linarith
qed

lemma fl_zero [simp]: "fl 0 = 0"
  by (simp add: fl_def)

lemma fl_nonneg: "0 \<le> x \<Longrightarrow> 0 \<le> fl x"
proof (cases "x = 0")
  case True
  then show ?thesis by simp
next
  case False
  assume "0 \<le> x"
  with False have x: "0 < x" by simp
  have "(0::int) \<le> round_even (x / 2 powr of_int (expo x))"
    using x by (intro round_even_ge) simp
  then show ?thesis by (simp add: fl_pos_unfold [OF x])
qed

text \<open>In particular it never crosses a whole number up to \<open>2 ^ 53\<close>.\<close>

lemma fl_le_int: "0 \<le> x \<Longrightarrow> x \<le> of_int m \<Longrightarrow> m \<le> 2 ^ 53 \<Longrightarrow> fl x \<le> of_int m"
proof (cases "x = 0")
  case True
  assume "0 \<le> x" "x \<le> of_int m"
  with True show ?thesis by simp
next
  case False
  assume a: "0 \<le> x" "x \<le> of_int m" "m \<le> 2 ^ 53"
  with False have x: "0 < x" by simp
  have "fl x \<le> of_int m * 2 powr of_int 0"
    using a by (intro fl_le_grid [OF x]) simp_all
  then show ?thesis by simp
qed

lemma fl_ge_int: "of_int m \<le> x \<Longrightarrow> 0 < m \<Longrightarrow> m \<le> 2 ^ 53 \<Longrightarrow> of_int m \<le> fl x"
proof -
  assume a: "of_int m \<le> x" "0 < m" "m \<le> 2 ^ 53"
  then have "(0::real) < of_int m" by simp
  with a have x: "0 < x" by linarith
  have "of_int m * 2 powr of_int 0 \<le> fl x"
    using a by (intro fl_ge_grid [OF x]) simp_all
  then show ?thesis by simp
qed

lemma expo_eq:
  assumes "x \<noteq> 0" "2 powr of_int k \<le> \<bar>x\<bar>" "\<bar>x\<bar> < 2 powr of_int (k + 1)" "- 1022 \<le> k"
  shows "expo x = k - 52"
proof -
  have "\<lfloor>log 2 \<bar>x\<bar>\<rfloor> = k" using assms by (intro floor_log2_eq) simp_all
  then show ?thesis using assms(4) by (simp add: expo_def)
qed

lemma fl_eval:
  assumes "x \<noteq> 0" "2 powr of_int k \<le> \<bar>x\<bar>" "\<bar>x\<bar> < 2 powr of_int (k + 1)" "- 1022 \<le> k"
  shows "fl x = of_int (round_even (x / 2 powr of_int (k - 52))) * 2 powr of_int (k - 52)"
  using assms(1) by (simp add: fl_def Let_def expo_eq [OF assms])

lemma fl_grid_form:
  assumes z: "0 < z"
  shows "fl z = of_int (round_even (z / 2 powr of_int (expo z))) * 2 powr of_int (expo z)"
    and "round_even (z / 2 powr of_int (expo z)) \<le> 2 ^ 53"
proof -
  show "fl z = of_int (round_even (z / 2 powr of_int (expo z))) * 2 powr of_int (expo z)"
    by (rule fl_pos_unfold [OF z])
  have "\<bar>z\<bar> < 2 powr of_int (expo z + 53)" using z by (intro below_top) simp
  then have "z < of_int (2 ^ 53) * 2 powr of_int (expo z)"
    using z unfolding pow53 by linarith
  then have "z / 2 powr of_int (expo z) \<le> of_int (2 ^ 53)"
    by (simp add: divide_le_eq)
  then show "round_even (z / 2 powr of_int (expo z)) \<le> 2 ^ 53"
    by (rule round_even_le)
qed

lemma fl_fl:
  assumes z: "0 < z"
  shows "fl (fl z) = fl z"
proof (cases "fl z = 0")
  case True
  then show ?thesis by simp
next
  case False
  have "0 \<le> fl z" using z by (intro fl_nonneg) simp
  with False have p: "0 < fl z" by simp
  let ?m = "round_even (z / 2 powr of_int (expo z))"
  have f: "fl z = of_int ?m * 2 powr of_int (expo z)" by (rule fl_grid_form(1) [OF z])
  have m: "?m \<le> 2 ^ 53" by (rule fl_grid_form(2) [OF z])
  have a: "fl (fl z) \<le> of_int ?m * 2 powr of_int (expo z)"
    using f by (intro fl_le_grid [OF p m expo_ge]) simp
  have b: "of_int ?m * 2 powr of_int (expo z) \<le> fl (fl z)"
    using f by (intro fl_ge_grid [OF p m expo_ge]) simp
  from a b f show ?thesis by linarith
qed

lemma below_one:
  assumes d: "fl r = r" and r0: "0 \<le> r" and r1: "r < 1"
  shows "r \<le> 1 - 1 / 2 ^ 53"
proof (cases "r \<le> 1 / 2")
  case True
  then show ?thesis by simp
next
  case False
  then have h: "1 / 2 < r" by simp
  then have p: "0 < r" by simp
  have e: "expo r = - 1 - 52"
    using h r1 by (intro expo_eq) (simp_all add: powr_minus_divide)
  let ?n = "round_even (r / 2 powr of_int (expo r))"
  have "fl r = of_int ?n * 2 powr of_int (expo r)" by (rule fl_pos_unfold [OF p])
  then have f: "r = of_int ?n / 2 ^ 53"
    using d by (simp add: e powr_minus_divide)
  with r1 have "(of_int ?n :: real) < of_int (2 ^ 53)" by (simp add: divide_less_eq)
  then have "?n < 2 ^ 53" by (simp only: of_int_less_iff)
  then have "?n \<le> 2 ^ 53 - 1" by simp
  then have "(of_int ?n :: real) \<le> of_int (2 ^ 53 - 1)" by (simp only: of_int_le_iff)
  then have "of_int ?n / 2 ^ 53 \<le> (of_int (2 ^ 53 - 1) :: real) / 2 ^ 53"
    by (intro divide_right_mono) simp_all
  with f show ?thesis by simp
qed

lemma expo_above_8: "8 < z \<Longrightarrow> - 49 \<le> expo z"
proof -
  assume a: "8 < z"
  have "(2::real) powr of_int 3 \<le> z" using a by simp
  then have "of_int 3 \<le> log 2 z" using a by (simp add: le_log_iff)
  then have "3 \<le> \<lfloor>log 2 z\<rfloor>" by (simp add: le_floor_iff)
  then show ?thesis using a by (simp add: expo_def)
qed

lemma fl_on_fine_grid:
  assumes "8 < z"
  shows "\<exists>n::int. fl z = of_int n * 2 powr of_int (- 49)"
proof -
  have p: "0 < z" using assms by simp
  let ?m = "round_even (z / 2 powr of_int (expo z))"
  have e: "- 49 \<le> expo z" by (rule expo_above_8 [OF assms])
  have "fl z / 2 powr of_int (- 49) = of_int ?m * 2 powr of_int (expo z) / 2 powr of_int (- 49)"
    by (simp only: fl_pos_unfold [OF p])
  also have "\<dots> = of_int (?m * 2 ^ nat (expo z - (- 49)))"
    by (rule multiple_div [OF e])
  finally have "fl z = of_int (?m * 2 ^ nat (expo z - (- 49))) * 2 powr of_int (- 49)"
    by (simp add: field_simps)
  then show ?thesis by blast
qed

lemma gap_above_8:
  assumes a: "8 < a" and b: "8 < b" and lt: "fl a < fl b"
  shows "2 powr of_int (- 49) \<le> fl b - fl a"
proof -
  obtain n where n: "fl a = of_int n * 2 powr of_int (- 49)"
    using fl_on_fine_grid [OF a] by blast
  obtain m where m: "fl b = of_int m * 2 powr of_int (- 49)"
    using fl_on_fine_grid [OF b] by blast
  from lt have "(of_int n :: real) < of_int m" unfolding n m by simp
  then have "n < m" by (simp only: of_int_less_iff)
  then have "n + 1 \<le> m" by simp
  then have "(of_int (n + 1) :: real) \<le> of_int m" by (simp only: of_int_le_iff)
  then have "of_int (n + 1) * (2::real) powr of_int (- 49) \<le> of_int m * 2 powr of_int (- 49)"
    by (intro mult_right_mono) simp_all
  then show ?thesis unfolding n m by (simp add: algebra_simps)
qed


lemma normal_of_big:
  assumes "2 powr of_int (- 1021) \<le> d"
  shows "- 1021 \<le> \<lfloor>log 2 \<bar>d\<bar>\<rfloor>"
proof -
  have "(0::real) < 2 powr of_int (- 1021)" by simp
  with assms have p: "0 < d" by linarith
  then have "of_int (- 1021) \<le> log 2 d" using assms by (simp add: le_log_iff)
  then have "- 1021 \<le> \<lfloor>log 2 d\<rfloor>" by (simp only: le_floor_iff)
  then show ?thesis using p by simp
qed

lemma half_step: "2 * (2::real) powr of_int (e - 1) = 2 powr of_int e"
proof -
  have "(2::real) powr of_int e = 2 powr (of_int (e - 1) + 1)" by simp
  also have "\<dots> = 2 powr of_int (e - 1) * 2 powr 1" by (simp only: powr_add)
  finally show ?thesis by simp
qed

lemma fl_mult_below:
  assumes r0: "0 \<le> r" and r1: "r \<le> 1 - 1 / 2 ^ 53" and dd: "fl d = d"
    and big: "2 powr of_int (- 1021) \<le> d"
  shows "fl (r * d) < d"
proof (cases "r = 0")
  case True
  have "(0::real) < 2 powr of_int (- 1021)" by simp
  with big have "0 < d" by linarith
  with True show ?thesis by simp
next
  case False
  with r0 have rp: "0 < r" by simp
  have "(0::real) < 2 powr of_int (- 1021)" by simp
  with big have dp: "0 < d" by linarith
  let ?E = "expo d"
  let ?U = "(2::real) powr of_int ?E"
  let ?m = "round_even (d / ?U)"
  let ?x = "r * d"
  have xp: "0 < ?x" using rp dp by simp
  have nd: "- 1021 \<le> \<lfloor>log 2 \<bar>d\<bar>\<rfloor>" by (rule normal_of_big [OF big])
  have E: "?E = \<lfloor>log 2 \<bar>d\<bar>\<rfloor> - 52" using nd by (simp add: expo_def)
  have dm: "d = of_int ?m * ?U" using fl_pos_unfold [OF dp] dd by simp
  have bot: "2 powr of_int (?E + 52) \<le> d"
    using above_bottom [of d] dp nd by simp
  have xle: "?x \<le> d - d / 2 ^ 53"
  proof -
    have "r * d \<le> (1 - 1 / 2 ^ 53) * d" using r1 dp by (intro mult_right_mono) simp_all
    then show ?thesis by (simp add: algebra_simps)
  qed
  have xd: "?x < d" using xle dp by (simp add: field_simps) 
  from xd have xd': "?x \<le> d" by (rule less_imp_le)
  have ex: "expo ?x \<le> ?E" by (rule expo_mono [OF xp xd'])
  show ?thesis
  proof (cases "expo ?x = ?E")
    case False
    with ex have e1: "expo ?x \<le> ?E - 1" by simp
    have "2 powr of_int (?E + 52) / 2 ^ 53 \<le> d / 2 ^ 53"
      using bot by (intro divide_right_mono) simp_all
    moreover have "(2::real) powr of_int (?E + 52) / 2 ^ 53 = 2 powr of_int (?E - 1)"
    proof -
      have "(2::real) ^ 53 = 2 powr of_int 53" by (simp add: powr_numeral)
      then have "(2::real) powr of_int (?E + 52) / 2 ^ 53 = 2 powr of_int (?E + 52 - 53)"
        by (simp only: powr_int_diff)
      then show ?thesis by simp
    qed
    ultimately have hs: "2 powr of_int (?E - 1) \<le> d / 2 ^ 53" by simp
    have c: "of_int (2 * ?m - 1) * 2 powr of_int (?E - 1) = d - 2 powr of_int (?E - 1)"
    proof -
      have "of_int (2 * ?m - 1) * (2::real) powr of_int (?E - 1)
          = of_int ?m * (2 * 2 powr of_int (?E - 1)) - 2 powr of_int (?E - 1)"
        by (simp add: algebra_simps)
      also have "\<dots> = of_int ?m * ?U - 2 powr of_int (?E - 1)"
        by (simp only: half_step)
      finally show ?thesis using dm by simp
    qed
    have "?x \<le> of_int (2 * ?m - 1) * 2 powr of_int (?E - 1)"
      unfolding c using xle hs by linarith
    then have "fl ?x \<le> of_int (2 * ?m - 1) * 2 powr of_int (?E - 1)"
      by (rule fl_le_multiple [OF xp e1])
    moreover have "(0::real) < 2 powr of_int (?E - 1)" by simp
    ultimately show ?thesis unfolding c by linarith
  next
    case True
    have "- 1073 \<le> ?E" using E nd by linarith
    then have nx: "- 1022 \<le> \<lfloor>log 2 \<bar>?x\<bar>\<rfloor>"
      using True unfolding expo_def by linarith
    from xp have xn: "?x \<noteq> 0" by (metis less_irrefl)
    have "2 powr of_int (expo ?x + 52) \<le> \<bar>?x\<bar>"
      by (rule above_bottom [OF xn nx])
    then have "2 powr of_int (?E + 52) \<le> ?x" using xp unfolding True by linarith
    then have "of_int (2 ^ 52) * ?U \<le> ?x" unfolding pow52 .
    with xd dm have "of_int (2 ^ 52) * ?U < of_int ?m * ?U" by linarith
    then have "(of_int (2 ^ 52) :: real) < of_int ?m" by (simp only: mult_less_cancel_right_pos ulp_pos)
    then have mg: "2 ^ 52 < ?m" by (simp only: of_int_less_iff)
    have "?x / ?U \<le> (d - d / 2 ^ 53) / ?U" using xle by (intro divide_right_mono) simp_all
    also have "\<dots> = of_int ?m - of_int ?m / 2 ^ 53"
    proof -
      have "d / ?U = of_int ?m" using dm by (simp add: field_simps)
      then show ?thesis by (simp add: diff_divide_distrib)
    qed
    also have "\<dots> < of_int ?m - 1 / 2"
    proof -
      have "(of_int (2 ^ 52) :: real) < of_int ?m" using mg by (simp only: of_int_less_iff)
      then show ?thesis by simp
    qed
    finally have "round_even (?x / ?U) \<le> ?m - 1" by (rule round_even_below_half)
    then have "(of_int (round_even (?x / ?U)) :: real) \<le> of_int (?m - 1)"
      by (simp only: of_int_le_iff)
    then have "of_int (round_even (?x / ?U)) * ?U \<le> of_int (?m - 1) * ?U"
      by (intro mult_right_mono) simp_all
    then have "fl ?x \<le> of_int (?m - 1) * ?U"
      using fl_pos_unfold [OF xp] True by simp
    also have "\<dots> = d - ?U" using dm by (simp add: algebra_simps)
    finally have "fl ?x \<le> d - ?U" .
    moreover have "0 < ?U" by simp
    ultimately show ?thesis by linarith
  qed
qed

section \<open>The loops as list functions\<close>

lemma trail_loop_filter:
  "i \<le> length ps \<Longrightarrow>
   trail_loop i ps = filter alive (map age (take i ps)) @ drop i ps"
proof (induction i arbitrary: ps)
  case 0
  then show ?case by simp
next
  case (Suc i)
  then have lt: "i < length ps" by simp
  have tk: "take (Suc i) ps = take i ps @ [ps ! i]"
    using lt by (simp add: take_Suc_conv_app_nth)
  show ?case
  proof (cases "alive (age (ps ! i))")
    case False
    have len: "i \<le> length (take i ps @ drop (Suc i) ps)" using lt by simp
    have "trail_loop (Suc i) ps = trail_loop i (take i ps @ drop (Suc i) ps)"
      using False by (simp add: age_def alive_def Let_def)
    also have "\<dots> = filter alive (map age (take i ps)) @ drop (Suc i) ps"
      using Suc.IH [OF len] lt by simp
    finally have eq:
      "trail_loop (Suc i) ps = filter alive (map age (take i ps)) @ drop (Suc i) ps" .
    show ?thesis unfolding eq tk using False by simp
  next
    case True
    have len: "i \<le> length (ps[i := age (ps ! i)])" using lt by simp
    have dr: "drop i (ps[i := age (ps ! i)]) = age (ps ! i) # drop (Suc i) ps"
      using lt by (simp add: upd_conv_take_nth_drop)
    have "trail_loop (Suc i) ps = trail_loop i (ps[i := age (ps ! i)])"
      using True by (simp add: age_def alive_def Let_def)
    also have "\<dots> = filter alive (map age (take i ps)) @ age (ps ! i) # drop (Suc i) ps"
      using Suc.IH [OF len] lt by (simp add: dr)
    finally have eq:
      "trail_loop (Suc i) ps =
         filter alive (map age (take i ps)) @ age (ps ! i) # drop (Suc i) ps" .
    show ?thesis unfolding eq tk using True by simp
  qed
qed

lemma hypot_less_iff: "hypot a b < r \<longleftrightarrow> 0 < r \<and> a\<^sup>2 + b\<^sup>2 < r\<^sup>2"
proof (cases "0 < r")
  case True
  then have r: "sqrt (r\<^sup>2) = r" by simp
  have "sqrt (a\<^sup>2 + b\<^sup>2) < sqrt (r\<^sup>2) \<longleftrightarrow> a\<^sup>2 + b\<^sup>2 < r\<^sup>2"
    by (rule real_sqrt_less_iff)
  with True r show ?thesis by (simp add: hypot_def)
next
  case False
  have "0 \<le> sqrt (a\<^sup>2 + b\<^sup>2)" by simp
  with False show ?thesis unfolding hypot_def by linarith
qed

lemma scan_hit_iff:
  "snd (scan h px py xs) \<longleftrightarrow>
   (\<exists>a \<in> set xs. \<not> offScreen h (advance a) \<and> crashed px py (advance a))"
  by (induction xs) (auto simp: Let_def split: prod.splits)

lemma asteroid_loop_scan:
  "i \<le> length (asteroids g) \<Longrightarrow>
   asteroid_loop i g =
     (case scan (height g) (player_x g) (player_y g) (rev (take i (asteroids g))) of
        (r, hit) \<Rightarrow>
          (let g' = g\<lparr>asteroids := rev r @ drop i (asteroids g)\<rparr>
           in if hit then Returned (endGame g') else Completed g'))"
proof (induction i arbitrary: g)
  case 0
  then show ?case by simp
next
  case (Suc i)
  let ?as = "asteroids g"
  let ?a = "advance (?as ! i)"
  from Suc.prems have lt: "i < length ?as" by simp
  have tk: "rev (take (Suc i) ?as) = (?as ! i) # rev (take i ?as)"
    using lt by (simp add: take_Suc_conv_app_nth)
  show ?case
  proof (cases "offScreen (height g) ?a")
    case True
    let ?g = "g\<lparr>asteroids := take i ?as @ drop (Suc i) ?as\<rparr>"
    have len: "i \<le> length (asteroids ?g)" using lt by simp
    have "asteroid_loop (Suc i) g = asteroid_loop i ?g"
      using True lt by (simp add: Let_def)
    also note Suc.IH [OF len]
    finally show ?thesis using True lt by (simp add: tk Let_def)
  next
    case False
    note off = this
    let ?g = "g\<lparr>asteroids := ?as[i := ?a]\<rparr>"
    show ?thesis
    proof (cases "crashed (player_x g) (player_y g) ?a")
      case True
      have "asteroid_loop (Suc i) g = Returned (endGame ?g)"
        using True off by (simp add: Let_def)
      then show ?thesis using True off lt
        by (simp add: tk Let_def upd_conv_take_nth_drop)
    next
      case False
      have len: "i \<le> length (asteroids ?g)" using lt by simp
      have "asteroid_loop (Suc i) g = asteroid_loop i ?g"
        using False off by (simp add: Let_def)
      also note Suc.IH [OF len]
      finally have eq: "asteroid_loop (Suc i) g =
        (case scan (height ?g) (player_x ?g) (player_y ?g) (rev (take i (asteroids ?g))) of
          (r, hit) \<Rightarrow>
            (let g' = ?g\<lparr>asteroids := rev r @ drop i (asteroids ?g)\<rparr>
             in if hit then Returned (endGame g') else Completed g'))" .
      obtain r hit where sc: "scan (height g) (player_x g) (player_y g) (rev (take i ?as)) = (r, hit)"
        by (cases "scan (height g) (player_x g) (player_y g) (rev (take i ?as))")
      have dr: "drop i (?as[i := ?a]) = ?a # drop (Suc i) ?as"
        using lt by (simp add: upd_conv_take_nth_drop)
      show ?thesis unfolding eq using False off lt sc
        by (simp add: tk Let_def dr)
    qed
  qed
qed

section \<open>What each phase of \<open>update\<close> leaves unchanged\<close>

lemma movePlayer_fields [simp]:
  "score (movePlayer g) = score g" "gameActive (movePlayer g) = gameActive g"
  "frameCount (movePlayer g) = frameCount g" "width (movePlayer g) = width g"
  "height (movePlayer g) = height g" "player_trail (movePlayer g) = player_trail g"
  "asteroids (movePlayer g) = asteroids g" "scoreEl (movePlayer g) = scoreEl g"
  by (simp_all add: movePlayer_def Let_def)

lemma boundPlayer_fields [simp]:
  "score (boundPlayer g) = score g" "gameActive (boundPlayer g) = gameActive g"
  "frameCount (boundPlayer g) = frameCount g" "width (boundPlayer g) = width g"
  "height (boundPlayer g) = height g" "player_trail (boundPlayer g) = player_trail g"
  "asteroids (boundPlayer g) = asteroids g" "scoreEl (boundPlayer g) = scoreEl g"
  by (simp_all add: boundPlayer_def Let_def)

lemma pushTrail_fields [simp]:
  "score (pushTrail g) = score g" "gameActive (pushTrail g) = gameActive g"
  "frameCount (pushTrail g) = frameCount g" "width (pushTrail g) = width g"
  "height (pushTrail g) = height g" "player_x (pushTrail g) = player_x g"
  "player_y (pushTrail g) = player_y g"
  "asteroids (pushTrail g) = asteroids g" "scoreEl (pushTrail g) = scoreEl g"
  by (simp_all add: pushTrail_def)

lemma updateTrail_fields [simp]:
  "score (updateTrail g) = score g" "gameActive (updateTrail g) = gameActive g"
  "frameCount (updateTrail g) = frameCount g" "width (updateTrail g) = width g"
  "height (updateTrail g) = height g" "player_x (updateTrail g) = player_x g"
  "player_y (updateTrail g) = player_y g"
  "asteroids (updateTrail g) = asteroids g" "scoreEl (updateTrail g) = scoreEl g"
  by (simp_all add: updateTrail_def)

lemma spawnAsteroid_fields [simp]:
  "score (spawnAsteroid rnd g) = score g" "gameActive (spawnAsteroid rnd g) = gameActive g"
  "frameCount (spawnAsteroid rnd g) = frameCount g" "width (spawnAsteroid rnd g) = width g"
  "height (spawnAsteroid rnd g) = height g" "player_x (spawnAsteroid rnd g) = player_x g"
  "player_y (spawnAsteroid rnd g) = player_y g"
  "player_trail (spawnAsteroid rnd g) = player_trail g"
  "scoreEl (spawnAsteroid rnd g) = scoreEl g"
  by (simp_all add: spawnAsteroid_def Let_def)

lemma update_pre_fields [simp]:
  "score (update_pre rnd g) = score g + 1"
  "gameActive (update_pre rnd g) = gameActive g"
  "frameCount (update_pre rnd g) = frameCount g"
  "width (update_pre rnd g) = width g"
  "height (update_pre rnd g) = height g"
  "scoreEl (update_pre rnd g) = \<lfloor>real (score g + 1) / 10\<rfloor>"
  by (simp_all add: update_pre_def Let_def)

lemma movePlayer_xy:
  "player_x (movePlayer g) = player_x g + (mouseX g - player_x g) * 0.15"
  "player_y (movePlayer g) = player_y g + (mouseY g - player_y g) * 0.15"
  by (simp_all add: movePlayer_def Let_def)

lemma movePlayer_mouse [simp]:
  "mouseX (movePlayer g) = mouseX g" "mouseY (movePlayer g) = mouseY g"
  by (simp_all add: movePlayer_def Let_def)

lemma boundPlayer_x:
  "player_x (boundPlayer g) =
     (let x1 = (if player_x g < player_size then player_size else player_x g)
      in if x1 > width g - player_size then width g - player_size else x1)"
  by (simp add: boundPlayer_def Let_def)

lemma boundPlayer_y:
  "player_y (boundPlayer g) =
     (let y1 = (if player_y g < player_size then player_size else player_y g)
      in if y1 > height g - player_size then height g - player_size else y1)"
  by (simp add: boundPlayer_def Let_def)

lemma pushTrail_trail:
  "player_trail (pushTrail g) =
     player_trail g @
     (if frameCount g mod 3 = 0
      then [\<lparr>p_x = player_x g, p_y = player_y g + 15, p_radius = player_size / 2,
              p_alpha = 1\<rparr>]
      else [])"
  by (simp add: pushTrail_def)

lemma updateTrail_trail:
  "player_trail (updateTrail g) = filter alive (map age (player_trail g))"
  by (simp add: updateTrail_def trail_loop_filter)

lemma spawnAsteroid_asteroids:
  "\<exists>a. asteroids (spawnAsteroid rnd g) = asteroids g @ [a]"
  by (simp add: spawnAsteroid_def Let_def)

lemma update_pre_x:
  "player_x (update_pre rnd g) =
     (let x0 = player_x g + (mouseX g - player_x g) * 0.15;
          x1 = (if x0 < player_size then player_size else x0)
      in if x1 > width g - player_size then width g - player_size else x1)"
  by (simp add: update_pre_def Let_def boundPlayer_x movePlayer_xy)

lemma update_pre_y:
  "player_y (update_pre rnd g) =
     (let y0 = player_y g + (mouseY g - player_y g) * 0.15;
          y1 = (if y0 < player_size then player_size else y0)
      in if y1 > height g - player_size then height g - player_size else y1)"
  by (simp add: update_pre_def Let_def boundPlayer_y movePlayer_xy)

lemma update_pre_trail:
  "player_trail (update_pre rnd g) =
     filter alive (map age (player_trail g @
       (if frameCount g mod 3 = 0
        then [\<lparr>p_x = player_x (update_pre rnd g), p_y = player_y (update_pre rnd g) + 15,
                p_radius = player_size / 2, p_alpha = 1\<rparr>]
        else [])))"
  by (simp add: update_pre_def Let_def updateTrail_trail pushTrail_trail)

lemma update_pre_asteroids:
  "asteroids (update_pre rnd g) =
     (if frameCount g mod spawnRate (score g + 1) = 0
      then asteroids (spawnAsteroid rnd (updateTrail (pushTrail (boundPlayer (movePlayer
             (g\<lparr>score := score g + 1, scoreEl := \<lfloor>real (score g + 1) / 10\<rfloor>\<rparr>))))))
      else asteroids g)"
  by (simp add: update_pre_def Let_def)

lemma update_running:
  "gameActive g \<Longrightarrow>
   update rnd g =
     (let g0 = update_pre rnd g
      in case scan (height g0) (player_x g0) (player_y g0) (rev (asteroids g0)) of
           (r, hit) \<Rightarrow>
             if hit then endGame (g0\<lparr>asteroids := rev r\<rparr>)
             else g0\<lparr>asteroids := rev r, frameCount := frameCount g0 + 1\<rparr>)"
  by (simp add: update_def asteroid_loop_scan Let_def split: prod.splits)

section \<open>Score\<close>

lemma update_score:
  "gameActive g \<Longrightarrow> score (update rnd g) = score g + 1"
  by (simp add: update_running Let_def endGame_def split: prod.splits)

lemma update_scoreEl:
  "gameActive g \<Longrightarrow> scoreEl (update rnd g) = \<lfloor>real (score g + 1) / 10\<rfloor>"
  by (simp add: update_running Let_def endGame_def split: prod.splits)

lemma handle_score: "score g \<le> score (handle e g)"
proof (cases e)
  case (Frame rnd)
  then show ?thesis
    by (cases "gameActive g") (simp_all add: gameLoop_def update_score)
next
  case (Resize w)
  then show ?thesis by (simp add: resizeGame_def Let_def)
qed simp_all

lemma run_score: "score g \<le> score (run es g)"
proof (induction es arbitrary: g)
  case Nil
  show ?case by simp
next
  case (Cons e es)
  have "score g \<le> score (handle e g)" by (rule handle_score)
  also have "\<dots> \<le> score (run es (handle e g))" by (rule Cons.IH)
  finally show ?case by simp
qed

text \<open>
  Claim C3. A tick of a running session adds exactly 1 to \<open>score\<close> (also the tick that
  ends in a crash), and the number written to the score display on that tick is the
  floor of the new score divided by 10. Over any sequence of frames, pointer moves,
  resizes and a close, the score never decreases; it is a natural number throughout.
\<close>

theorem score_tick:
  "(gameActive g \<longrightarrow>
      score (update rnd g) = score g + 1 \<and>
      scoreEl (update rnd g) = \<lfloor>real (score (update rnd g)) / 10\<rfloor>) \<and>
   score g \<le> score (run es g)"
  by (simp add: update_score update_scoreEl run_score)

theorem score_tick_witness:
  "gameActive g_run \<and> score g_run = 19 \<and> score (update rnd0 g_run) = 20 \<and>
   scoreEl (update rnd0 g_run) = 2"
  using score_tick [of g_run rnd0 "[]"]
  by (simp add: g_run_def initial_game_def)

section \<open>Spawn cadence\<close>

lemma spawnRate_step:
  "spawnRate sc =
     (if sc \<le> 500 then 45 else if sc \<le> 1000 then 35 else if sc \<le> 2000 then 25 else 15)"
  by (simp add: spawnRate_def Let_def)

text \<open>
  Claim C4. The spawn rate is 45 up to score 500, 35 up to 1000, 25 up to 2000 and 15
  beyond, so it is 45, 35 and 25 at the boundary scores themselves and drops one tick
  later. In a tick, the part of \<open>update\<close> before the asteroid loop appends one asteroid
  exactly when \<open>frameCount\<close> is a multiple of the spawn rate of the score just
  incremented, and leaves the asteroids alone exactly when it is not.
\<close>

theorem spawn_cadence:
  "spawnRate sc =
     (if sc \<le> 500 then 45 else if sc \<le> 1000 then 35 else if sc \<le> 2000 then 25 else 15) \<and>
   spawnRate 500 = 45 \<and> spawnRate 1000 = 35 \<and> spawnRate 2000 = 25 \<and>
   spawnRate 501 = 35 \<and> spawnRate 1001 = 25 \<and> spawnRate 2001 = 15 \<and>
   ((\<exists>a. asteroids (update_pre rnd g) = asteroids g @ [a]) \<longleftrightarrow>
      frameCount g mod spawnRate (score (update_pre rnd g)) = 0) \<and>
   (asteroids (update_pre rnd g) = asteroids g \<longleftrightarrow>
      frameCount g mod spawnRate (score (update_pre rnd g)) \<noteq> 0)"
  using spawnAsteroid_asteroids [of rnd "updateTrail (pushTrail (boundPlayer (movePlayer
             (g\<lparr>score := score g + 1, scoreEl := \<lfloor>real (score g + 1) / 10\<rfloor>\<rparr>))))"]
  by (auto simp add: spawnRate_step update_pre_asteroids)

section \<open>Collision\<close>

lemma update_gameActive:
  "gameActive g \<Longrightarrow>
   gameActive (update rnd g) =
     (\<not> snd (scan (height g) (player_x (update_pre rnd g)) (player_y (update_pre rnd g))
              (rev (asteroids (update_pre rnd g)))))"
  by (simp add: update_running Let_def endGame_def split: prod.splits)

lemma update_frameCount:
  "gameActive g \<Longrightarrow>
   frameCount (update rnd g) =
     (if snd (scan (height g) (player_x (update_pre rnd g)) (player_y (update_pre rnd g))
              (rev (asteroids (update_pre rnd g))))
      then frameCount g else frameCount g + 1)"
  by (simp add: update_running Let_def endGame_def split: prod.splits)

lemma hypot_axis: "hypot 0 y = \<bar>y\<bar>" "hypot x 0 = \<bar>x\<bar>"
  by (simp_all add: hypot_def)

lemma advance_rock: "advance (rock x y) = rock x (y + 5)"
  by (simp add: advance_def rock_def)

lemma rock_fields [simp]: "a_x (rock x y) = x" "a_y (rock x y) = y" "a_size (rock x y) = 20"
  by (simp_all add: rock_def)

lemma g_hit_pre:
  "gameActive g_hit" "frameCount g_hit = 1" "height g_hit = 600"
  "asteroids (update_pre rnd0 g_hit) = [rock 400 495]"
  "player_x (update_pre rnd0 g_hit) = 400"
  "player_y (update_pre rnd0 g_hit) = 500"
  by (simp_all add: g_hit_def initial_game_def update_pre_asteroids update_pre_x update_pre_y
      spawnRate_step player_size_def Let_def)

lemma g_miss_pre:
  "gameActive g_miss" "frameCount g_miss = 1" "height g_miss = 600"
  "asteroids (update_pre rnd0 g_miss) = [rock 400 459]"
  "player_x (update_pre rnd0 g_miss) = 400"
  "player_y (update_pre rnd0 g_miss) = 500"
  by (simp_all add: g_miss_def initial_game_def update_pre_asteroids update_pre_x update_pre_y
      spawnRate_step player_size_def Let_def)

lemma rock_distance_0:
  "hypot (400 - a_x (rock 400 500)) (500 - a_y (rock 400 500)) = 0"
  by (simp add: hypot_axis)

lemma rock_distance_36:
  "hypot (400 - a_x (rock 400 464)) (500 - a_y (rock 400 464)) = 36"
  by (simp add: hypot_axis)

lemma g_hit_overlap:
  "\<exists>a \<in> set (asteroids (update_pre rnd0 g_hit)).
      \<not> offScreen (height (update_pre rnd0 g_hit)) (advance a) \<and>
      hypot (player_x (update_pre rnd0 g_hit) - a_x (advance a))
            (player_y (update_pre rnd0 g_hit) - a_y (advance a))
        < player_size + a_size (advance a) - 5"
  by (simp add: g_hit_pre advance_rock hypot_axis offScreen_def player_size_def)

lemma g_miss_no_overlap:
  "\<not> (\<exists>a \<in> set (asteroids (update_pre rnd0 g_miss)).
      \<not> offScreen (height (update_pre rnd0 g_miss)) (advance a) \<and>
      hypot (player_x (update_pre rnd0 g_miss) - a_x (advance a))
            (player_y (update_pre rnd0 g_miss) - a_y (advance a))
        < player_size + a_size (advance a) - 5)"
  by (simp add: g_miss_pre advance_rock hypot_axis offScreen_def player_size_def)

text \<open>
  Claim C1. In a tick of a running session, take the asteroids as they are when the
  loop of lines 130-149 starts, each advanced by its speed. The session ends in that
  tick (\<open>gameActive\<close> becomes false) exactly when one of those that has not left the
  surface lies at a Euclidean distance from the player strictly below
  \<open>player.size + ast.size - 5\<close>; then \<open>frameCount\<close> keeps its value, and otherwise it
  grows by 1. The player's radius is 20, so against an asteroid of radius 20 a distance
  of 0 is a crash and a distance of 36 is not.
\<close>

theorem collision_ends_session:
  "(gameActive g \<longrightarrow>
      (let g0 = update_pre rnd g;
           hit = (\<exists>a \<in> set (asteroids g0).
                    \<not> offScreen (height g0) (advance a) \<and>
                    hypot (player_x g0 - a_x (advance a)) (player_y g0 - a_y (advance a))
                      < player_size + a_size (advance a) - 5)
       in gameActive (update rnd g) = (\<not> hit) \<and>
          frameCount (update rnd g) = (if hit then frameCount g else frameCount g + 1))) \<and>
   player_size = 20 \<and>
   (a_size a = 20 \<and> hypot (px - a_x a) (py - a_y a) = 0 \<longrightarrow> crashed px py a) \<and>
   (a_size a = 20 \<and> hypot (px - a_x a) (py - a_y a) = 36 \<longrightarrow> \<not> crashed px py a)"
  by (simp add: update_gameActive update_frameCount scan_hit_iff Let_def crashed_def
      player_size_def)

theorem collision_ends_session_witness:
  "gameActive g_hit \<and> \<not> gameActive (update rnd0 g_hit) \<and>
   frameCount (update rnd0 g_hit) = frameCount g_hit \<and>
   crashed 400 500 (rock 400 500) \<and>
   gameActive g_miss \<and> gameActive (update rnd0 g_miss) \<and>
   frameCount (update rnd0 g_miss) = frameCount g_miss + 1 \<and>
   \<not> crashed 400 500 (rock 400 464)"
proof -
  have hit: "\<not> gameActive (update rnd0 g_hit) \<and>
      frameCount (update rnd0 g_hit) = frameCount g_hit \<and> crashed 400 500 (rock 400 500)"
    using collision_ends_session [of g_hit rnd0 "rock 400 500" 400 500]
      rock_distance_0 g_hit_overlap g_hit_pre(1)
    unfolding Let_def by (simp only: simp_thms if_True rock_fields)
  have miss: "gameActive (update rnd0 g_miss) \<and>
      frameCount (update rnd0 g_miss) = frameCount g_miss + 1 \<and>
      \<not> crashed 400 500 (rock 400 464)"
    using collision_ends_session [of g_miss rnd0 "rock 400 464" 400 500]
      rock_distance_36 g_miss_no_overlap g_miss_pre(1)
    unfolding Let_def by (simp only: simp_thms if_False rock_fields)
  from hit miss g_hit_pre(1) g_miss_pre(1) show ?thesis by blast
qed

section \<open>Order of the collision check\<close>

lemma g_two_code:
  "asteroid_loop (length (asteroids g_two)) g_two =
     Returned (endGame (g_two\<lparr>asteroids := [rock 400 495, rock 410 495]\<rparr>))"
  by (simp add: g_two_def initial_game_def Let_def advance_rock offScreen_def crashed_def
      hypot_less_iff player_size_def)

lemma g_two_spec:
  "check_insertion_order g_two =
     Returned (endGame (g_two\<lparr>asteroids := [rock 400 500, rock 410 490]\<rparr>))"
  by (simp add: check_insertion_order_def g_two_def initial_game_def Let_def advance_rock
      offScreen_def crashed_def hypot_less_iff player_size_def)

text \<open>
  Claim C6, as stated: the collision check goes through the asteroids in insertion
  order, oldest first. It does not. With two asteroids that would both overlap the
  player, the loop of the source advances and tests the newer one (index 1), ends the
  session there and never touches the older one (index 0); a check in insertion order
  would have advanced the older one and stopped there.
\<close>

theorem collision_order_counterexample:
  "asteroid_loop (length (asteroids g_two)) g_two =
     Returned (endGame (g_two\<lparr>asteroids := [rock 400 495, rock 410 495]\<rparr>)) \<and>
   check_insertion_order g_two =
     Returned (endGame (g_two\<lparr>asteroids := [rock 400 500, rock 410 490]\<rparr>)) \<and>
   asteroid_loop (length (asteroids g_two)) g_two \<noteq> check_insertion_order g_two"
  unfolding g_two_code g_two_spec
  by (simp add: endGame_def g_two_def initial_game_def rock_def)

text \<open>
  Claim C6, amended: within a tick the collision check goes through the asteroids in
  reverse insertion order, newest first, and the first collision found in that order
  ends the session; the asteroids older than the one that hit are left as they were.
\<close>

theorem collision_order: "asteroid_loop (length (asteroids g)) g = check_newest_first g"
  by (simp add: asteroid_loop_scan check_newest_first_def)

section \<open>Player bounds\<close>

lemma update_player:
  "gameActive g \<Longrightarrow> player_x (update rnd g) = player_x (update_pre rnd g)"
  "gameActive g \<Longrightarrow> player_y (update rnd g) = player_y (update_pre rnd g)"
  "gameActive g \<Longrightarrow> width (update rnd g) = width g"
  "gameActive g \<Longrightarrow> height (update rnd g) = height g"
  by (simp_all add: update_running Let_def endGame_def split: prod.splits)

text \<open>
  Claim C2, amended: after a tick of a running session, whose surface size the tick
  does not change, the player's position satisfies \<open>x \<le> width - radius\<close> and
  \<open>y \<le> height - radius\<close>; it satisfies \<open>radius \<le> x\<close> when the surface is at least
  two radii wide, and \<open>radius \<le> y\<close> when it is at least two radii high.
\<close>

theorem player_clamped:
  "gameActive g \<longrightarrow>
     width (update rnd g) = width g \<and> height (update rnd g) = height g \<and>
     player_x (update rnd g) \<le> width g - player_size \<and>
     player_y (update rnd g) \<le> height g - player_size \<and>
     (2 * player_size \<le> width g \<longrightarrow> player_size \<le> player_x (update rnd g)) \<and>
     (2 * player_size \<le> height g \<longrightarrow> player_size \<le> player_y (update rnd g))"
  by (simp add: update_player update_pre_x update_pre_y Let_def)

lemma g_run_fields:
  "gameActive g_run" "width g_run = 800" "height g_run = 600"
  by (simp_all add: g_run_def initial_game_def)

theorem player_clamped_witness:
  "gameActive g_run \<and> 2 * player_size \<le> width g_run \<and> 2 * player_size \<le> height g_run \<and>
   player_size \<le> player_x (update rnd0 g_run) \<and>
   player_x (update rnd0 g_run) \<le> width g_run - player_size \<and>
   player_size \<le> player_y (update rnd0 g_run) \<and>
   player_y (update rnd0 g_run) \<le> height g_run - player_size"
  using player_clamped [of g_run rnd0]
  by (simp add: g_run_fields player_size_def)

lemma g_narrow_fields:
  "gameActive g_narrow" "width g_narrow = 28.5" "height g_narrow = 600"
  "player_x g_narrow = 400" "mouseX g_narrow = 400" "score g_narrow = 19"
  by (simp_all add: g_narrow_def resizeGame_def g_run_def initial_game_def Let_def)

text \<open>
  Claim C2, as stated, for every surface size: it fails on a surface narrower than two
  radii. The second boundary check of the source overwrites the first, so on a surface
  28.5 wide the player ends the tick at \<open>x = 8.5\<close>, left of its own radius 20.
\<close>

theorem player_clamped_counterexample:
  "gameActive g_narrow \<and> width g_narrow = 28.5 \<and> player_size = 20 \<and>
   player_x (update rnd0 g_narrow) = 8.5 \<and>
   \<not> (player_size \<le> player_x (update rnd0 g_narrow))"
  by (simp add: g_narrow_fields update_player update_pre_x Let_def player_size_def)

section \<open>The spawner\<close>

lemma spawn_app:
  "asteroids (spawnAsteroid rnd g) = asteroids g @ [last (asteroids (spawnAsteroid rnd g))]"
  by (simp add: spawnAsteroid_def Let_def)

lemma spawn_last:
  "a_size (last (asteroids (spawnAsteroid rnd g))) = fl (fl (r_size rnd * 25) + 10)"
  "a_y (last (asteroids (spawnAsteroid rnd g))) = - fl (fl (r_size rnd * 25) + 10)"
  "a_x (last (asteroids (spawnAsteroid rnd g))) =
     fl (r_x rnd * fl (width g - fl (fl (r_size rnd * 25) + 10)))"
  "a_speed (last (asteroids (spawnAsteroid rnd g))) =
     fl (fl (fl (r_speed rnd * 3) + 2) + fl (real (score g) * fl 0.005))"
  by (simp_all add: spawnAsteroid_def Let_def)

lemma spawn_size_bounds:
  assumes "0 \<le> r" "r < 1"
  shows "10 \<le> fl (r * 25) + 10" "10 \<le> fl (fl (r * 25) + 10)" "fl (fl (r * 25) + 10) \<le> 35"
proof -
  have a0: "0 \<le> fl (r * 25)" using assms by (intro fl_nonneg) simp
  have a1: "fl (r * 25) \<le> of_int 25" using assms by (intro fl_le_int) simp_all
  show "10 \<le> fl (r * 25) + 10" using a0 by simp
  have "of_int 10 \<le> fl (fl (r * 25) + 10)" using a0 by (intro fl_ge_int) simp_all
  then show "10 \<le> fl (fl (r * 25) + 10)" by simp
  have "fl (fl (r * 25) + 10) \<le> of_int 35" using a0 a1 by (intro fl_le_int) simp_all
  then show "fl (fl (r * 25) + 10) \<le> 35" by simp
qed

lemma spawn_u_bounds:
  assumes "0 \<le> r" "r < 1"
  shows "2 \<le> fl (fl (r * 3) + 2)" "fl (fl (r * 3) + 2) \<le> 5"
proof -
  have a0: "0 \<le> fl (r * 3)" using assms by (intro fl_nonneg) simp
  have a1: "fl (r * 3) \<le> of_int 3" using assms by (intro fl_le_int) simp_all
  have "of_int 2 \<le> fl (fl (r * 3) + 2)" using a0 by (intro fl_ge_int) simp_all
  then show "2 \<le> fl (fl (r * 3) + 2)" by simp
  have "fl (fl (r * 3) + 2) \<le> of_int 5" using a0 a1 by (intro fl_le_int) simp_all
  then show "fl (fl (r * 3) + 2) \<le> 5" by simp
qed

text \<open>A double strictly below the rounding of \<open>z\<close> lies strictly below \<open>z\<close> itself.\<close>

lemma below_fl:
  assumes z: "0 < z" and y: "0 \<le> y" and lt: "fl y < fl z"
  shows "fl y < z"
proof (cases "y = 0")
  case True
  with z show ?thesis by simp
next
  case False
  with y have yp: "0 < y" by simp
  let ?m = "round_even (y / 2 powr of_int (expo y))"
  have f: "fl y = of_int ?m * 2 powr of_int (expo y)" by (rule fl_grid_form(1) [OF yp])
  have m: "?m \<le> 2 ^ 53" by (rule fl_grid_form(2) [OF yp])
  show ?thesis
  proof (rule ccontr)
    assume "\<not> fl y < z"
    then have "z \<le> of_int ?m * 2 powr of_int (expo y)" using f by simp
    then have "fl z \<le> of_int ?m * 2 powr of_int (expo y)"
      by (rule fl_le_grid [OF z m expo_ge])
    with f lt show False by simp
  qed
qed

lemma spawn_x_bounds:
  assumes r: "double_draw r" and s: "0 \<le> q" "q < 1" and w: "fl w = w"
    and lt: "fl (fl (q * 25) + 10) < w"
  shows "0 \<le> fl (r * fl (w - fl (fl (q * 25) + 10)))"
    and "fl (r * fl (w - fl (fl (q * 25) + 10))) < fl (w - fl (fl (q * 25) + 10))"
    and "fl (r * fl (w - fl (fl (q * 25) + 10))) < w - fl (fl (q * 25) + 10)"
proof -
  let ?s = "fl (q * 25) + 10"
  let ?z = "w - fl ?s"
  let ?d = "fl ?z"
  from r have r0: "0 \<le> r" and r1: "r \<le> 1 - 1 / 2 ^ 53"
    using below_one [of r] by (simp_all add: double_draw_def)
  have z0: "8 < ?s" using spawn_size_bounds(1) [OF s] by simp
  have "10 \<le> fl ?s" by (rule spawn_size_bounds(2) [OF s])
  with lt have w8: "8 < w" by simp
  from lt w have "fl ?s < fl w" by simp
  then have "2 powr of_int (- 49) \<le> fl w - fl ?s" by (rule gap_above_8 [OF z0 w8])
  then have gap: "of_int 1 * 2 powr of_int (- 49) \<le> ?z" using w by simp
  have zp: "0 < ?z" using lt by simp
  have "of_int 1 * 2 powr of_int (- 49) \<le> ?d"
    using gap by (intro fl_ge_grid [OF zp]) simp_all
  then have d49: "2 powr of_int (- 49) \<le> ?d" by simp
  have "(2::real) powr of_int (- 1021) \<le> 2 powr of_int (- 49)"
    by (intro powr_mono) simp_all
  with d49 have big: "2 powr of_int (- 1021) \<le> ?d" by linarith
  have dp: "0 \<le> ?d" using zp by (intro fl_nonneg) simp
  have dd: "fl ?d = ?d" by (rule fl_fl [OF zp])
  show "0 \<le> fl (r * ?d)" using r0 dp by (intro fl_nonneg) simp
  show lt_d: "fl (r * ?d) < ?d" by (rule fl_mult_below [OF r0 r1 dd big])
  have "0 \<le> r * ?d" using r0 dp by simp
  then show "fl (r * ?d) < ?z" using lt_d by (intro below_fl [OF zp]) simp_all
qed

text \<open>
  Claim C5, amended: with every draw a double of the half-open unit interval and every
  operation rounded as the source computes it, \<open>spawnAsteroid\<close> appends one asteroid
  whose size lies in the closed interval from 10 to 35, whose \<open>y\<close> is exactly minus its
  size and whose speed is the rounded sum of some \<open>u\<close> between 2 and 5, both included,
  and the rounded product of the score and 0.005. Whenever the surface width is a
  double greater than the asteroid's size, its \<open>x\<close> is at least 0 and strictly below
  the width minus the size, both as the exact difference and as the source computes it.
\<close>

theorem spawned_asteroid:
  "double_draws rnd \<longrightarrow>
     (let a = last (asteroids (spawnAsteroid rnd g))
      in asteroids (spawnAsteroid rnd g) = asteroids g @ [a] \<and>
         10 \<le> a_size a \<and> a_size a \<le> 35 \<and> a_y a = - a_size a \<and>
         (\<exists>u. 2 \<le> u \<and> u \<le> 5 \<and>
              a_speed a = fl (u + fl (real (score g) * fl 0.005))) \<and>
         (fl (width g) = width g \<and> a_size a < width g \<longrightarrow>
            0 \<le> a_x a \<and> a_x a < width g - a_size a \<and>
            a_x a < fl (width g - a_size a)))"
proof
  assume u: "double_draws rnd"
  let ?a = "last (asteroids (spawnAsteroid rnd g))"
  from u have rs: "0 \<le> r_size rnd" "r_size rnd < 1"
    and rv: "0 \<le> r_speed rnd" "r_speed rnd < 1" and rx: "double_draw (r_x rnd)"
    by (simp_all add: double_draws_def double_draw_def)
  have app: "asteroids (spawnAsteroid rnd g) = asteroids g @ [?a]" by (rule spawn_app)
  have b: "10 \<le> a_size ?a \<and> a_size ?a \<le> 35"
    unfolding spawn_last using spawn_size_bounds(2,3) [OF rs] by blast
  have y: "a_y ?a = - a_size ?a" unfolding spawn_last ..
  have v: "\<exists>u. 2 \<le> u \<and> u \<le> 5 \<and> a_speed ?a = fl (u + fl (real (score g) * fl 0.005))"
    unfolding spawn_last using spawn_u_bounds [OF rv] by blast
  have xb: "fl (width g) = width g \<and> a_size ?a < width g \<longrightarrow>
      0 \<le> a_x ?a \<and> a_x ?a < width g - a_size ?a \<and> a_x ?a < fl (width g - a_size ?a)"
    unfolding spawn_last using spawn_x_bounds [OF rx rs, of "width g"] by blast
  from app b y v xb show "let a = ?a in
      asteroids (spawnAsteroid rnd g) = asteroids g @ [a] \<and>
         10 \<le> a_size a \<and> a_size a \<le> 35 \<and> a_y a = - a_size a \<and>
         (\<exists>u. 2 \<le> u \<and> u \<le> 5 \<and>
              a_speed a = fl (u + fl (real (score g) * fl 0.005))) \<and>
         (fl (width g) = width g \<and> a_size a < width g \<longrightarrow>
            0 \<le> a_x a \<and> a_x a < width g - a_size a \<and>
            a_x a < fl (width g - a_size a))"
    unfolding Let_def by blast
qed

lemma unit_draws_examples: "unit_draws rnd0"
  by (simp add: unit_draws_def unit_draw_def rnd0_def)

lemma double_draw_values:
  "double_draw 0" "double_draw (1 / 2)" "double_draw (1 / 4)" "double_draw (1 / 8)"
  "double_draw (3 / 4)" "double_draw (7 / 8)" "double_draw (1 - 1 / 2 ^ 53)"
  using fl_eval [of "1 / 2" "- 1"] fl_eval [of "1 / 4" "- 2"] fl_eval [of "1 / 8" "- 3"]
    fl_eval [of "3 / 4" "- 1"] fl_eval [of "7 / 8" "- 1"] fl_eval [of "1 - 1 / 2 ^ 53" "- 1"]
  by (simp_all add: double_draw_def round_even_def powr_minus_divide)

lemma rnd_mid_fields:
  "r_size rnd_mid = 1 / 2" "r_x rnd_mid = 1 / 2" "r_speed rnd_mid = 1 / 2"
  "r_color rnd_mid = 1 / 4" "r_rotation rnd_mid = 1 / 8" "r_rotSpeed rnd_mid = 3 / 4"
  by (simp_all add: rnd_mid_def)

lemma rnd_big_fields:
  "r_size rnd_big = 7 / 8" "r_x rnd_big = 1 / 2" "r_speed rnd_big = 1 / 2"
  "r_color rnd_big = 1 / 4" "r_rotation rnd_big = 1 / 8" "r_rotSpeed rnd_big = 3 / 4"
  by (simp_all add: rnd_big_def rnd_mid_def)

lemma rnd_top_fields:
  "r_size rnd_top = 1 - 1 / 2 ^ 53" "r_x rnd_top = 1 / 2"
  "r_speed rnd_top = 1 - 1 / 2 ^ 53"
  "r_color rnd_top = 1 / 4" "r_rotation rnd_top = 1 / 8" "r_rotSpeed rnd_top = 3 / 4"
  by (simp_all add: rnd_top_def rnd_mid_def)

lemma rnd_low_fields:
  "r_size rnd_low = 1 / 2" "r_x rnd_low = 1 / 2" "r_speed rnd_low = 0"
  "r_color rnd_low = 1 / 4" "r_rotation rnd_low = 1 / 8" "r_rotSpeed rnd_low = 3 / 4"
  by (simp_all add: rnd_low_def rnd_mid_def)

lemma double_draws_examples:
  "double_draws rnd_mid" "double_draws rnd_big" "double_draws rnd_top" "double_draws rnd_low"
  unfolding double_draws_def rnd_mid_fields rnd_big_fields rnd_top_fields rnd_low_fields
  by (intro conjI double_draw_values)+

lemma fl_800: "fl 800 = 800"
  using fl_eval [of 800 9] by (simp add: round_even_def powr_minus_divide)

theorem spawned_asteroid_witness:
  "double_draws rnd_mid \<and> fl (width g_run) = width g_run \<and>
   a_size (last (asteroids (spawnAsteroid rnd_mid g_run))) < width g_run \<and>
   10 \<le> a_size (last (asteroids (spawnAsteroid rnd_mid g_run))) \<and>
   a_size (last (asteroids (spawnAsteroid rnd_mid g_run))) \<le> 35 \<and>
   a_y (last (asteroids (spawnAsteroid rnd_mid g_run))) =
     - a_size (last (asteroids (spawnAsteroid rnd_mid g_run))) \<and>
   0 \<le> a_x (last (asteroids (spawnAsteroid rnd_mid g_run))) \<and>
   a_x (last (asteroids (spawnAsteroid rnd_mid g_run))) <
     width g_run - a_size (last (asteroids (spawnAsteroid rnd_mid g_run)))"
proof -
  let ?a = "last (asteroids (spawnAsteroid rnd_mid g_run))"
  note t = spawned_asteroid [of rnd_mid g_run, unfolded Let_def, rule_format,
      OF double_draws_examples(1)]
  have w: "fl (width g_run) = width g_run" by (simp add: g_run_fields fl_800)
  from t have b: "10 \<le> a_size ?a" "a_size ?a \<le> 35" "a_y ?a = - a_size ?a" by blast+
  from b(2) have lt: "a_size ?a < width g_run" by (simp add: g_run_fields)
  from t w lt have x: "0 \<le> a_x ?a" "a_x ?a < width g_run - a_size ?a" by blast+
  from double_draws_examples(1) w lt b x show ?thesis by blast
qed

lemma top_size: "fl (fl ((1 - 1 / 2 ^ 53) * 25) + 10) = 35"
proof -
  have a: "fl ((1 - 1 / 2 ^ 53) * 25) = 25 - 1 / 2 ^ 48"
    using fl_eval [of "(1 - 1 / 2 ^ 53) * 25" 4]
    by (simp add: round_even_def powr_minus_divide)
  have b: "fl (25 - 1 / 2 ^ 48 + 10) = 35"
    using fl_eval [of "25 - 1 / 2 ^ 48 + 10" 5]
    by (simp add: round_even_def powr_minus_divide)
  show ?thesis unfolding a b ..
qed

lemma top_speed: "fl (fl (fl ((1 - 1 / 2 ^ 53) * 3) + 2) + fl (real 0 * fl 0.005)) = 5"
proof -
  have a: "fl ((1 - 1 / 2 ^ 53) * 3) = 3 - 1 / 2 ^ 51"
    using fl_eval [of "(1 - 1 / 2 ^ 53) * 3" 1]
    by (simp add: round_even_def powr_minus_divide)
  have b: "fl (3 - 1 / 2 ^ 51 + 2) = 5"
    using fl_eval [of "3 - 1 / 2 ^ 51 + 2" 2]
    by (simp add: round_even_def powr_minus_divide)
  have c: "fl (real 0 * fl 0.005) = 0" by simp
  have d: "fl (5 + 0) = 5"
    using fl_eval [of 5 2] by (simp add: round_even_def powr_minus_divide)
  show ?thesis unfolding a b c d ..
qed

lemma narrow_x: "fl (1 / 2 * fl (28.5 - fl (fl (7 / 8 * 25) + 10))) = - 1.6875"
proof -
  have a: "fl (7 / 8 * 25) = 21.875"
    using fl_eval [of "7 / 8 * 25" 4] by (simp add: round_even_def powr_minus_divide)
  have b: "fl (21.875 + 10) = 31.875"
    using fl_eval [of "21.875 + 10" 4] by (simp add: round_even_def powr_minus_divide)
  have c: "fl (28.5 - 31.875) = - 3.375"
    using fl_eval [of "28.5 - 31.875" 1] by (simp add: round_even_def powr_minus_divide)
  have d: "fl (1 / 2 * - 3.375) = - 1.6875"
    using fl_eval [of "1 / 2 * - 3.375" 0] by (simp add: round_even_def powr_minus_divide)
  show ?thesis unfolding a b c d ..
qed

lemma low_speed:
  "fl (fl (fl (0 * 3) + 2) + fl (real 1 * fl 0.005)) = 2 + 11258999068426 / 2 ^ 51"
proof -
  have a: "fl (0 * 3) = 0" by simp
  have b: "fl (0 + 2) = 2"
    using fl_eval [of 2 1] by (simp add: round_even_def powr_minus_divide)
  have c: "fl 0.005 = 5764607523034235 / 2 ^ 60"
    using fl_eval [of "0.005" "- 8"] by (simp add: round_even_def powr_minus_divide)
  have d: "fl (real 1 * (5764607523034235 / 2 ^ 60)) = 5764607523034235 / 2 ^ 60"
    using fl_eval [of "5764607523034235 / 2 ^ 60" "- 8"]
    by (simp add: round_even_def powr_minus_divide)
  have e: "fl (2 + 5764607523034235 / 2 ^ 60) = 2 + 11258999068426 / 2 ^ 51"
    using fl_eval [of "2 + 5764607523034235 / 2 ^ 60" 1]
    by (simp add: round_even_def powr_minus_divide)
  show ?thesis unfolding a b c d e ..
qed

lemma counter_states:
  "score initial_game = 0" "score g_first = 1" "width g_narrow = 28.5"
  by (simp_all add: initial_game_def g_first_def g_narrow_fields)

lemma counter_values:
  "a_size (last (asteroids (spawnAsteroid rnd_top initial_game))) = 35"
  "a_speed (last (asteroids (spawnAsteroid rnd_top initial_game))) = 5"
  "a_x (last (asteroids (spawnAsteroid rnd_big g_narrow))) = - 1.6875"
  "a_speed (last (asteroids (spawnAsteroid rnd_low g_first))) = 2 + 11258999068426 / 2 ^ 51"
  unfolding spawn_last rnd_top_fields rnd_big_fields rnd_low_fields counter_states
  by (rule top_size top_speed narrow_x low_speed)+

text \<open>
  Claim C5, as stated, fails in three places. The draw \<open>1 - 2^-53\<close>, the largest
  double below 1, gives size exactly 35 and, at score 0, speed exactly 5, so that the
  only \<open>u\<close> with \<open>speed = u + score * 0.005\<close> is 5: neither upper bound is strict. On the
  surface 28.5 wide an asteroid of size 31.875 is placed at \<open>x = -1.6875\<close>, left
  of 0. And at score 1 the speed draw 0 gives a speed just below 2.005, so that the
  sum of the claim holds of no \<open>u\<close> from 2 on: the sum is the rounded one.
\<close>

theorem spawned_asteroid_counterexample:
  "double_draws rnd_top \<and> double_draws rnd_big \<and> double_draws rnd_low \<and>
   \<not> (a_size (last (asteroids (spawnAsteroid rnd_top initial_game))) < 35) \<and>
   \<not> (\<exists>u. 2 \<le> u \<and> u < 5 \<and>
          a_speed (last (asteroids (spawnAsteroid rnd_top initial_game))) =
            u + real (score initial_game) * 0.005) \<and>
   \<not> (0 \<le> a_x (last (asteroids (spawnAsteroid rnd_big g_narrow)))) \<and>
   \<not> (\<exists>u. 2 \<le> u \<and>
          a_speed (last (asteroids (spawnAsteroid rnd_low g_first))) =
            u + real (score g_first) * 0.005)"
  unfolding counter_values counter_states
  using double_draws_examples by simp

section \<open>Start and restart\<close>

lemma resizeGame_fields [simp]:
  "width (resizeGame w g) = min 800 (real (innerWidth w) * 0.95)"
  "height (resizeGame w g) = min 600 (real (innerHeight w) * 0.8)"
  "score (resizeGame w g) = score g" "frameCount (resizeGame w g) = frameCount g"
  "asteroids (resizeGame w g) = asteroids g" "player_trail (resizeGame w g) = player_trail g"
  "gameActive (resizeGame w g) = gameActive g"
  by (simp_all add: resizeGame_def Let_def)

lemma startGame_reset_fields:
  "score (startGame_reset w g) = 0" "frameCount (startGame_reset w g) = 0"
  "asteroids (startGame_reset w g) = []" "player_trail (startGame_reset w g) = []"
  "gameActive (startGame_reset w g)" "scoreEl (startGame_reset w g) = 0"
  "width (startGame_reset w g) = min 800 (real (innerWidth w) * 0.95)"
  "height (startGame_reset w g) = min 600 (real (innerHeight w) * 0.8)"
  "player_x (startGame_reset w g) = width (startGame_reset w g) / 2"
  "player_y (startGame_reset w g) = height (startGame_reset w g) - 100"
  "mouseX (startGame_reset w g) = width (startGame_reset w g) / 2"
  "mouseY (startGame_reset w g) = height (startGame_reset w g) - 100"
  by (simp_all add: startGame_reset_def Let_def)

text \<open>
  Claim C7. From any earlier state (before the first session or after a crash) and for
  any window, the reset that \<open>startGame\<close> performs sets \<open>score\<close> and \<open>frameCount\<close> to 0,
  empties the asteroids and the trail, recomputes the surface from the window and puts
  both the player and the pointer target at \<open>(width / 2, height - 100)\<close> of that
  surface, the bottom centre. \<open>startGame\<close> then runs the first tick on that state
  before it returns, so the score it leaves behind is already 1.
\<close>

theorem start_resets:
  "startGame w rnd g = update rnd (startGame_reset w g) \<and>
   (let g0 = startGame_reset w g
    in score g0 = 0 \<and> frameCount g0 = 0 \<and> asteroids g0 = [] \<and> player_trail g0 = [] \<and>
       gameActive g0 \<and> scoreEl g0 = 0 \<and>
       width g0 = min 800 (real (innerWidth w) * 0.95) \<and>
       height g0 = min 600 (real (innerHeight w) * 0.8) \<and>
       player_x g0 = width g0 / 2 \<and> player_y g0 = height g0 - 100 \<and>
       mouseX g0 = width g0 / 2 \<and> mouseY g0 = height g0 - 100) \<and>
   score (startGame w rnd g) = 1"
  unfolding Let_def
  by (simp add: startGame_def gameLoop_def startGame_reset_fields update_score)

lemma update_asteroids:
  "gameActive g \<Longrightarrow>
   asteroids (update rnd g) =
     rev (fst (scan (height g) (player_x (update_pre rnd g)) (player_y (update_pre rnd g))
                 (rev (asteroids (update_pre rnd g)))))"
  by (simp add: update_running Let_def endGame_def split: prod.splits)

lemma scan_single:
  "\<not> offScreen h (advance a) \<Longrightarrow> fst (scan h px py [a]) = [advance a]"
  by (simp add: Let_def)

lemma first_spawn_on_screen:
  assumes u: "unit_draws rnd" and h: "0 \<le> height g" and s: "score g \<le> 1"
  shows "\<not> offScreen (height g) (advance (last (asteroids (spawnAsteroid rnd g))))"
proof -
  let ?a = "last (asteroids (spawnAsteroid rnd g))"
  from u have rs: "0 \<le> r_size rnd" "r_size rnd < 1"
    and rv: "0 \<le> r_speed rnd" "r_speed rnd < 1"
    by (simp_all add: unit_draws_def unit_draw_def)
  have sz: "10 \<le> a_size ?a" unfolding spawn_last by (rule spawn_size_bounds(2) [OF rs])
  have ub: "0 \<le> fl (fl (r_speed rnd * 3) + 2)" "fl (fl (r_speed rnd * 3) + 2) \<le> 5"
    using spawn_u_bounds [OF rv] by simp_all
  have c0: "0 \<le> fl 0.005" by (intro fl_nonneg) simp
  have "fl 0.005 \<le> of_int 1" by (intro fl_le_int) simp_all
  then have c1: "fl 0.005 \<le> 1" by simp
  have "real (score g) \<le> 1" using s by simp
  then have "real (score g) * fl 0.005 \<le> 1 * 1"
    using c0 c1 by (intro mult_mono) simp_all
  then have p1: "real (score g) * fl 0.005 \<le> 1" by simp
  have p0: "0 \<le> real (score g) * fl 0.005" using c0 by simp
  have q0: "0 \<le> fl (real (score g) * fl 0.005)" using p0 by (rule fl_nonneg)
  have "fl (real (score g) * fl 0.005) \<le> of_int 1"
    using p0 p1 by (intro fl_le_int) simp_all
  then have q1: "fl (real (score g) * fl 0.005) \<le> 1" by simp
  have "a_speed ?a \<le> of_int 6"
    unfolding spawn_last using ub q0 q1 by (intro fl_le_int) simp_all
  then have sp: "a_speed ?a \<le> 6" by simp
  have y: "a_y ?a = - a_size ?a" unfolding spawn_last ..
  have sa: "a_size (advance ?a) = a_size ?a" "a_y (advance ?a) = a_y ?a + a_speed ?a"
    by (simp_all add: advance_def)
  show ?thesis unfolding offScreen_def sa y using sz sp h by simp
qed

text \<open>
  Claim C10. The state on which the first tick of a session runs has \<open>frameCount = 0\<close>,
  a multiple of the spawn rate, so that tick spawns: before its asteroid loop the
  asteroids are exactly the one just spawned, and after the tick (when \<open>startGame\<close>
  returns) they are exactly that asteroid advanced once, hence not empty, whether or not
  the tick ended in a crash. The draws are taken from the half-open unit interval.
\<close>

theorem first_tick_spawns:
  "unit_draws rnd \<longrightarrow>
     frameCount (startGame_reset w g) = 0 \<and>
     frameCount (startGame_reset w g)
       mod spawnRate (score (update_pre rnd (startGame_reset w g))) = 0 \<and>
     (\<exists>a. asteroids (update_pre rnd (startGame_reset w g)) = [a] \<and>
          asteroids (startGame w rnd g) = [advance a]) \<and>
     asteroids (startGame w rnd g) \<noteq> []"
proof
  assume u: "unit_draws rnd"
  let ?g0 = "startGame_reset w g"
  let ?g4 = "updateTrail (pushTrail (boundPlayer (movePlayer
             (?g0\<lparr>score := score ?g0 + 1, scoreEl := \<lfloor>real (score ?g0 + 1) / 10\<rfloor>\<rparr>))))"
  let ?a = "last (asteroids (spawnAsteroid rnd ?g4))"
  have act: "gameActive ?g0" by (simp add: startGame_reset_fields)
  have fc: "frameCount ?g0 = 0" by (simp add: startGame_reset_fields)
  have pre: "asteroids (update_pre rnd ?g0) = asteroids (spawnAsteroid rnd ?g4)"
    by (simp add: update_pre_asteroids fc)
  have "asteroids ?g4 = []" by (simp add: startGame_reset_fields)
  then have one: "asteroids (spawnAsteroid rnd ?g4) = [?a]"
    by (simp add: spawnAsteroid_def Let_def)
  have h: "0 \<le> height ?g4" by (simp add: startGame_reset_fields)
  have s: "score ?g4 \<le> 1" by (simp add: startGame_reset_fields)
  have on: "\<not> offScreen (height ?g4) (advance ?a)"
    by (rule first_spawn_on_screen [OF u h s])
  have hh: "height ?g4 = height ?g0" by simp
  have pre1: "asteroids (update_pre rnd ?g0) = [?a]"
    using pre one by (simp only:)
  have on0: "\<not> offScreen (height ?g0) (advance ?a)"
    using on by (simp add: hh)
  have "asteroids (update rnd ?g0) =
      rev (fst (scan (height ?g0) (player_x (update_pre rnd ?g0))
                  (player_y (update_pre rnd ?g0)) (rev [?a])))"
    unfolding update_asteroids [OF act, of rnd] pre1 startGame_reset_fields ..
  also have "\<dots> = [advance ?a]"
    using scan_single [OF on0] by (simp only: rev.simps append_Nil)
  finally have res: "asteroids (startGame w rnd g) = [advance ?a]"
    using act by (simp add: startGame_def gameLoop_def)
  from fc pre1 res
  show "frameCount ?g0 = 0 \<and>
     frameCount ?g0 mod spawnRate (score (update_pre rnd ?g0)) = 0 \<and>
     (\<exists>a. asteroids (update_pre rnd ?g0) = [a] \<and>
          asteroids (startGame w rnd g) = [advance a]) \<and>
     asteroids (startGame w rnd g) \<noteq> []"
    by simp
qed

theorem first_tick_spawns_witness:
  "unit_draws rnd0 \<and> frameCount (startGame_reset \<lparr>innerWidth = 1280, innerHeight = 720\<rparr> g_hit) = 0 \<and>
   asteroids (startGame \<lparr>innerWidth = 1280, innerHeight = 720\<rparr> rnd0 g_hit) \<noteq> []"
  using first_tick_spawns [of rnd0 "\<lparr>innerWidth = 1280, innerHeight = 720\<rparr>" g_hit]
    unit_draws_examples
  by blast

section \<open>The trail\<close>

lemma update_trail:
  "gameActive g \<Longrightarrow> player_trail (update rnd g) = player_trail (update_pre rnd g)"
  by (simp add: update_running Let_def endGame_def split: prod.splits)

lemma fade_append: "fade (ps @ qs) = fade ps @ fade qs"
  by (simp add: fade_def)

lemma fade_single:
  "fade [p] =
     (if 0 < p_alpha p - 0.05 then [p\<lparr>p_y := p_y p + 2, p_alpha := p_alpha p - 0.05\<rparr>]
      else [])"
  by (simp add: fade_def alive_def age_def)

lemma fade_fresh:
  "p_alpha p = 1 \<Longrightarrow>
   (fade ^^ n) [p] =
     (if n < 20 then [p\<lparr>p_y := p_y p + 2 * real n, p_alpha := 1 - 0.05 * real n\<rparr>]
      else [])"
proof (induction n)
  case 0
  then show ?case by simp
next
  case (Suc n)
  show ?case
  proof (cases "n < 20")
    case True
    then have "(fade ^^ Suc n) [p] =
        fade [p\<lparr>p_y := p_y p + 2 * real n, p_alpha := 1 - 0.05 * real n\<rparr>]"
      using Suc by simp
    also have "\<dots> =
        (if 0 < (1 - 0.05 * real n) - 0.05
         then [p\<lparr>p_y := (p_y p + 2 * real n) + 2, p_alpha := (1 - 0.05 * real n) - 0.05\<rparr>]
         else [])"
      by (simp add: fade_single)
    also have "\<dots> =
        (if Suc n < 20
         then [p\<lparr>p_y := p_y p + 2 * real (Suc n), p_alpha := 1 - 0.05 * real (Suc n)\<rparr>]
         else [])"
    proof -
      have e1: "(1 - 0.05 * real n) - 0.05 = 1 - 0.05 * real (Suc n)"
        by (simp add: field_simps)
      have e2: "(p_y p + 2 * real n) + 2 = p_y p + 2 * real (Suc n)"
        by simp
      have gd: "(0 < 1 - 0.05 * real (Suc n)) = (Suc n < 20)"
        by (simp add: field_simps)
      show ?thesis unfolding e1 e2 gd ..
    qed
    finally show ?thesis .
  next
    case False
    then show ?thesis using Suc by (simp add: fade_def)
  qed
qed

text \<open>
  Claim C8. In a tick of a running session the trail becomes the old trail, followed
  when \<open>frameCount\<close> is a multiple of 3 by a new particle of alpha 1 at
  \<open>(player.x, player.y + 0.75 * player.size)\<close>, all of it aged once: each particle
  loses 0.05 of alpha and moves 2 down, independently of the others, and is dropped in
  the tick in which its alpha reaches 0 or less. For a particle of alpha 1, after \<open>n\<close>
  ageing ticks (the first of them is the tick that created it) it is still in the trail
  with alpha \<open>1 - 0.05 n\<close> and \<open>y\<close> raised by \<open>2 n\<close> when \<open>n < 20\<close>, and it is gone from
  the 20th on.
\<close>

theorem trail_lifecycle:
  "(gameActive g \<longrightarrow>
      player_trail (update rnd g) =
        fade (player_trail g @
          (if frameCount g mod 3 = 0
           then [\<lparr>p_x = player_x (update rnd g),
                   p_y = player_y (update rnd g) + 0.75 * player_size,
                   p_radius = player_size / 2, p_alpha = 1\<rparr>]
           else []))) \<and>
   fade (ps @ qs) = fade ps @ fade qs \<and>
   fade [p] =
     (if 0 < p_alpha p - 0.05 then [p\<lparr>p_y := p_y p + 2, p_alpha := p_alpha p - 0.05\<rparr>]
      else []) \<and>
   (p_alpha p = 1 \<longrightarrow>
      (fade ^^ n) [p] =
        (if n < 20 then [p\<lparr>p_y := p_y p + 2 * real n, p_alpha := 1 - 0.05 * real n\<rparr>]
         else []))"
  by (simp add: update_trail update_pre_trail update_player fade_def [symmetric] fade_append
      fade_single fade_fresh player_size_def)

lemma g_run_player:
  "player_x (update rnd0 g_run) = 400" "player_y (update rnd0 g_run) = 500"
  "frameCount g_run = 0" "player_trail g_run = []"
  by (simp_all add: update_player g_run_fields update_pre_x update_pre_y Let_def
      player_size_def) (simp_all add: g_run_def initial_game_def)

lemma spark_alpha: "p_alpha spark = 1"
  by (simp add: spark_def)

theorem trail_lifecycle_witness:
  "gameActive g_run \<and> p_alpha spark = 1 \<and>
   player_trail (update rnd0 g_run) =
     [\<lparr>p_x = 400, p_y = 517, p_radius = 10, p_alpha = 0.95\<rparr>] \<and>
   (fade ^^ 19) [spark] = [\<lparr>p_x = 400, p_y = 553, p_radius = 10, p_alpha = 0.05\<rparr>] \<and>
   (fade ^^ 20) [spark] = []"
proof -
  have a: "player_trail (update rnd0 g_run) =
      [\<lparr>p_x = 400, p_y = 517, p_radius = 10, p_alpha = 0.95\<rparr>]"
    using trail_lifecycle [of g_run rnd0 "[]" "[]" "\<lparr>p_x = 400, p_y = 515, p_radius = 10, p_alpha = 1\<rparr>" 0]
      g_run_fields(1)
    by (simp add: g_run_player player_size_def)
  have b: "(fade ^^ 19) [spark] = [\<lparr>p_x = 400, p_y = 553, p_radius = 10, p_alpha = 0.05\<rparr>]"
    using trail_lifecycle [of g_run rnd0 "[]" "[]" spark 19] spark_alpha
    by (simp add: spark_def)
  have c: "(fade ^^ 20) [spark] = []"
    using trail_lifecycle [of g_run rnd0 "[]" "[]" spark 20] spark_alpha
    by simp
  from a b c g_run_fields(1) spark_alpha show ?thesis by blast
qed

section \<open>Initialisation\<close>

text \<open>
  Claim C9 asks that the core declines to activate, with no listener attached and no
  state created, whenever a required element is missing. The guard of line 19 does so
  for the canvas and the modal only. On a page that lacks just the play button the body
  creates the state, attaches four listeners and then stops with a \<open>TypeError\<close> at line
  286; on a page that lacks just the score display it attaches all seven listeners and
  activates, although \<open>startGame\<close> and \<open>update\<close> write to that element.
\<close>

theorem init_without_play_button:
  "GameSystem dom_no_play =
     Faulted [StartBtn_click, CloseBtn_click, Canvas_mousemove, Canvas_touchmove]
       initial_game \<and>
   GameSystem dom_no_score =
     Activated [StartBtn_click, CloseBtn_click, Canvas_mousemove, Canvas_touchmove,
                PlayBtn_click, RestartBtn_click, Window_resize] initial_game \<and>
   GameSystem (dom_full\<lparr>has_canvas := False\<rparr>) = Declined \<and>
   GameSystem (dom_full\<lparr>has_modal := False\<rparr>) = Declined"
  by (simp add: GameSystem_def dom_no_play_def dom_no_score_def dom_full_def)

end
